theory Spec2Isabelle
  imports Main "HOL-Library.Word"
begin

unbundle bit_operations_syntax

section \<open>Modbus client: shallow embedding\<close>

text \<open>
  Go's \<open>byte\<close> is an 8-bit word, \<open>uint16\<close> a 16-bit word and \<open>uint32\<close> a 32-bit
  word. A slice is a list; \<open>len\<close> is \<open>length\<close> (a Go \<open>int\<close>, never negative
  here, so \<open>nat\<close>). A conversion \<open>uint16(n)\<close> of an \<open>int\<close> truncates: \<open>of_nat n\<close>.
\<close>

type_synonym byte = "8 word"
type_synonym uint16 = "16 word"
type_synonym uint32 = "32 word"

subsection \<open>crc.go\<close>

text \<open>
  The inner loop of \<open>CRC16\<close>: \<open>for i := 0; i < 8; i++\<close>, shifting the accumulator right
  and xoring the polynomial in when the low bit was set.
\<close>

function CRC16_bits :: "nat \<Rightarrow> uint16 \<Rightarrow> uint16" where
  "CRC16_bits i crc =
     (if i < 8
      then CRC16_bits (i + 1)
             (if crc AND 0x0001 \<noteq> 0 then drop_bit 1 crc XOR 0xA001 else drop_bit 1 crc)
      else crc)"
  by pat_completeness auto
termination
  by (relation "measure (\<lambda>(i, crc). 8 - i)") auto

declare CRC16_bits.simps [simp del]

text \<open>The outer loop: \<open>for _, b := range data\<close>, threading the accumulator.\<close>

fun CRC16_loop :: "byte list \<Rightarrow> uint16 \<Rightarrow> uint16" where
  "CRC16_loop [] crc = crc"
| "CRC16_loop (b # bs) crc = CRC16_loop bs (CRC16_bits 0 (crc XOR ucast b))"

definition CRC16 :: "byte list \<Rightarrow> uint16" where
  "CRC16 data = CRC16_loop data 0xFFFF"

definition AppendCRC :: "byte list \<Rightarrow> byte list" where
  "AppendCRC data =
     (let crc = CRC16 data
      in data @ [ucast (crc AND 0xFF), ucast (drop_bit 8 crc AND 0xFF)])"

definition CheckCRC :: "byte list \<Rightarrow> bool" where
  "CheckCRC data =
     (if length data < 3 then False
      else
        let payload = take (length data - 2) data;
            receivedCRC = (ucast (data ! (length data - 2)) :: uint16)
                          OR push_bit 8 (ucast (data ! (length data - 1)) :: uint16);
            calculatedCRC = CRC16 payload
        in receivedCRC = calculatedCRC)"

subsection \<open>client.go: data conversion helpers\<close>

text \<open>
  \<open>bytesToBools\<close>: the loop counter \<open>i\<close> is a \<open>uint16\<close> running up to \<open>quantity\<close>;
  the bound test compares \<open>byteIndex\<close> with \<open>uint16(len(data))\<close>, a truncating
  conversion. A position whose byte is out of range keeps the \<open>false\<close> that
  \<open>make\<close> put there.
\<close>

function bytesToBools_loop :: "byte list \<Rightarrow> uint16 \<Rightarrow> uint16 \<Rightarrow> bool list \<Rightarrow> bool list" where
  "bytesToBools_loop data quantity i result =
     (if i < quantity
      then
        let byteIndex = i div 8;
            bitIndex = i mod 8
        in bytesToBools_loop data quantity (i + 1)
             (if byteIndex < of_nat (length data)
              then result[unat i :=
                     (data ! unat byteIndex AND push_bit (unat bitIndex) 1 \<noteq> 0)]
              else result)
      else result)"
  by pat_completeness auto
termination
proof (relation "measure (\<lambda>(data, quantity, i, result). unat quantity - unat i)")
  show "wf (measure (\<lambda>(data, quantity, i, result). unat quantity - unat i))"
    by simp
next
  fix data :: "byte list" and quantity i :: uint16 and result :: "bool list"
    and x :: uint16 and xa :: uint16
  assume lt: "i < quantity"
  then have a: "unat i < unat quantity"
    by (simp add: word_less_nat_alt)
  have "unat quantity < 2 ^ 16"
    using unsigned_less [of quantity] by simp
  with a have "unat i + unat (1 :: uint16) < 2 ^ LENGTH(16)"
    by simp
  then have "unat (i + 1) = unat i + unat (1 :: uint16)"
    by (simp only: unat_add_lem)
  then have b: "unat (i + 1) = Suc (unat i)"
    by simp
  from a b show
    "((data, quantity, i + 1,
       if x < word_of_nat (length data)
       then result[unat i := data ! unat x AND push_bit (unat xa) 1 \<noteq> 0] else result),
      (data, quantity, i, result))
     \<in> measure (\<lambda>(data, quantity, i, result). unat quantity - unat i)"
    by simp
qed

declare bytesToBools_loop.simps [simp del]

definition bytesToBools :: "byte list \<Rightarrow> uint16 \<Rightarrow> bool list" where
  "bytesToBools data quantity =
     bytesToBools_loop data quantity 0 (replicate (unat quantity) False)"

text \<open>
  \<open>boolsToBytes\<close>: \<open>for i, val := range values\<close> with the running index \<open>i\<close> and the
  result slice updated in place. All indices are in range: \<open>i / 8 < (len + 7) / 8\<close>.
\<close>

fun boolsToBytes_loop :: "bool list \<Rightarrow> nat \<Rightarrow> byte list \<Rightarrow> byte list" where
  "boolsToBytes_loop [] i result = result"
| "boolsToBytes_loop (val # vals) i result =
     boolsToBytes_loop vals (i + 1)
       (if val
        then
          let byteIndex = i div 8;
              bitIndex = i mod 8
          in result[byteIndex := result ! byteIndex OR push_bit bitIndex 1]
        else result)"

definition boolsToBytes :: "bool list \<Rightarrow> byte list" where
  "boolsToBytes values =
     (let byteCount = (length values + 7) div 8
      in boolsToBytes_loop values 0 (replicate byteCount 0))"

text \<open>\<open>bytesToUint16s\<close>: \<open>for i := 0; i < len(result); i++\<close>; the reads are in range.\<close>

function bytesToUint16s_loop :: "byte list \<Rightarrow> nat \<Rightarrow> uint16 list \<Rightarrow> uint16 list" where
  "bytesToUint16s_loop data i result =
     (if i < length result
      then bytesToUint16s_loop data (i + 1)
             (result[i := push_bit 8 (ucast (data ! (i * 2)) :: uint16)
                           OR ucast (data ! (i * 2 + 1))])
      else result)"
  by pat_completeness auto
termination
  by (relation "measure (\<lambda>(data, i, result). length result - i)") auto

declare bytesToUint16s_loop.simps [simp del]

definition bytesToUint16s :: "byte list \<Rightarrow> uint16 list" where
  "bytesToUint16s data = bytesToUint16s_loop data 0 (replicate (length data div 2) 0)"

fun uint16sToBytes_loop :: "uint16 list \<Rightarrow> nat \<Rightarrow> byte list \<Rightarrow> byte list" where
  "uint16sToBytes_loop [] i result = result"
| "uint16sToBytes_loop (val # vals) i result =
     uint16sToBytes_loop vals (i + 1)
       ((result[i * 2 := ucast (drop_bit 8 val)])[i * 2 + 1 := ucast (val AND 0xFF)])"

definition uint16sToBytes :: "uint16 list \<Rightarrow> byte list" where
  "uint16sToBytes values = uint16sToBytes_loop values 0 (replicate (length values * 2) 0)"

subsection \<open>Errors, PDU, and the byte channel\<close>

text \<open>
  The error values of the package, and the errors the two \<open>sendRequest\<close> build with
  \<open>fmt.Errorf\<close> around the channel's own error (here a message). \<open>ModbusError\<close>
  carries \<open>FunctionCode\<close> and \<open>ExceptionCode\<close>, in that order.
\<close>

type_synonym ioerr = string

datatype error =
    ErrInvalidResponse
  | ErrInvalidCRC
  | ErrTimeout
  | ErrInvalidSlaveID
  | ErrInvalidAddress
  | ErrInvalidQuantity
  | ModbusError byte byte
  | NotConnected
  | PortNotOpen
  | WriteFailed ioerr
  | ReadHeaderFailed ioerr
  | ReadPDUFailed ioerr
  | ReadFailed ioerr

text \<open>
  A Go call returns its value, returns an error, or panics: indexing a slice out of
  range is a run-time panic, which no caller in this package recovers.
\<close>

datatype 'a result = Ok 'a | Err error | Panic

record PDU =
  FunctionCode :: byte
  Data :: "byte list"

text \<open>
  \<open>net.Conn\<close> and \<open>serial.Port\<close> are external: a channel is a script of what each
  successive \<open>Write\<close> and \<open>Read\<close> will answer, together with the log of the calls made
  so far. The \<open>k\<close>-th \<open>Write\<close> returns \<open>write_result k\<close>; the \<open>k\<close>-th \<open>Read\<close> has
  \<open>fst (read_result k)\<close> available and returns the error \<open>snd (read_result k)\<close>.
  \<open>Read(buf)\<close> copies at most \<open>len(buf)\<close> bytes into the front of \<open>buf\<close>, leaves
  the rest of \<open>buf\<close> as it was, and returns the number of bytes copied.
\<close>

record channel =
  write_result :: "nat \<Rightarrow> ioerr option"
  read_result :: "nat \<Rightarrow> byte list \<times> ioerr option"
  writes :: "byte list list"
  reads :: nat

definition chan_Write :: "channel \<Rightarrow> byte list \<Rightarrow> ioerr option \<times> channel" where
  "chan_Write ch bs = (write_result ch (length (writes ch)), ch\<lparr>writes := writes ch @ [bs]\<rparr>)"

definition copy_into :: "byte list \<Rightarrow> byte list \<Rightarrow> byte list" where
  "copy_into buf avail =
     (let n = min (length avail) (length buf) in take n avail @ drop n buf)"

definition chan_Read :: "channel \<Rightarrow> byte list \<Rightarrow> (byte list \<times> nat \<times> ioerr option) \<times> channel" where
  "chan_Read ch buf =
     (let avail = fst (read_result ch (reads ch));
          e = snd (read_result ch (reads ch));
          n = min (length avail) (length buf)
      in ((copy_into buf avail, n, e), ch\<lparr>reads := reads ch + 1\<rparr>))"

text \<open>\<open>binary.BigEndian.PutUint16\<close> and \<open>binary.BigEndian.Uint16\<close> on a two-byte slice.\<close>

definition PutUint16 :: "uint16 \<Rightarrow> byte list" where
  "PutUint16 v = [ucast (drop_bit 8 v), ucast v]"

definition Uint16 :: "byte \<Rightarrow> byte \<Rightarrow> uint16" where
  "Uint16 b0 b1 = ucast b1 OR push_bit 8 (ucast b0)"

subsection \<open>The stream transport (TCPClient)\<close>

record TCPClient =
  address :: string
  conn :: "channel option"
  timeout :: int
  transactionID :: uint32

text \<open>
  \<open>sendRequest\<close>. The deadlines set on the connection do not enter the result and are
  left out. \<open>make([]byte, length-1)\<close> is computed in \<open>uint16\<close>, so a declared length
  of 0 asks for 65535 bytes and a declared length of 1 for none; \<open>pduData[0]\<close> on the
  empty slice panics.
\<close>

definition TCPClient_sendRequest ::
  "TCPClient \<Rightarrow> byte \<Rightarrow> PDU \<Rightarrow> byte list result \<times> TCPClient" where
  "TCPClient_sendRequest c slaveID pdu =
     (case conn c of
        None \<Rightarrow> (Err NotConnected, c)
      | Some ch \<Rightarrow>
          let tid32 = transactionID c + 1;
              transID = (ucast tid32 :: uint16);
              mbap = PutUint16 transID @ PutUint16 0
                       @ PutUint16 (of_nat (2 + length (Data pdu))) @ [slaveID];
              request = (mbap @ [FunctionCode pdu]) @ Data pdu;
              (werr, ch1) = chan_Write ch request
          in case werr of
               Some e \<Rightarrow> (Err (WriteFailed e), c\<lparr>conn := Some ch1, transactionID := tid32\<rparr>)
             | None \<Rightarrow>
                 let ((header, n, rerr), ch2) = chan_Read ch1 (replicate 7 0);
                     c2 = c\<lparr>conn := Some ch2, transactionID := tid32\<rparr>
                 in case rerr of
                      Some e \<Rightarrow> (Err (ReadHeaderFailed e), c2)
                    | None \<Rightarrow>
                        let respTransID = Uint16 (header ! 0) (header ! 1);
                            len = Uint16 (header ! 4) (header ! 5)
                        in if respTransID \<noteq> transID then (Err ErrInvalidResponse, c2)
                           else
                             let ((pduData, n2, rerr2), ch3) =
                                   chan_Read ch2 (replicate (unat (len - 1)) 0);
                                 c3 = c\<lparr>conn := Some ch3, transactionID := tid32\<rparr>
                             in case rerr2 of
                                  Some e \<Rightarrow> (Err (ReadPDUFailed e), c3)
                                | None \<Rightarrow>
                                    if length pduData < 1 then (Panic, c3)
                                    else if pduData ! 0 = (FunctionCode pdu OR 0x80)
                                    then (if length pduData \<ge> 2
                                          then (Err (ModbusError (FunctionCode pdu) (pduData ! 1)), c3)
                                          else (Err ErrInvalidResponse, c3))
                                    else (Ok (drop 1 pduData), c3))"

subsection \<open>The serial transport (RTUClient)\<close>

record RTUConfig =
  Device :: string
  Baud :: int
  DataBits :: int
  Parity :: int
  StopBits :: int
  ReadTimeout :: int
  WriteTimeout :: int

record RTUClient =
  config :: RTUConfig
  port :: "channel option"

text \<open>
  \<open>sendRequest\<close>. The 10 ms sleep does not enter the result and is left out. After
  \<open>n \<ge> 4\<close> the frame \<open>response[:n-2]\<close> has at least two bytes, so \<open>frame[0]\<close> and
  \<open>frame[1]\<close> are in range.
\<close>

definition RTUClient_sendRequest ::
  "RTUClient \<Rightarrow> byte \<Rightarrow> PDU \<Rightarrow> byte list result \<times> RTUClient" where
  "RTUClient_sendRequest c slaveID pdu =
     (case port c of
        None \<Rightarrow> (Err PortNotOpen, c)
      | Some ch \<Rightarrow>
          let adu = AppendCRC ([slaveID, FunctionCode pdu] @ Data pdu);
              (werr, ch1) = chan_Write ch adu
          in case werr of
               Some e \<Rightarrow> (Err (WriteFailed e), c\<lparr>port := Some ch1\<rparr>)
             | None \<Rightarrow>
                 let ((response, n, rerr), ch2) = chan_Read ch1 (replicate 260 0);
                     c2 = c\<lparr>port := Some ch2\<rparr>
                 in case rerr of
                      Some e \<Rightarrow> (Err (ReadFailed e), c2)
                    | None \<Rightarrow>
                        if n < 4 then (Err ErrTimeout, c2)
                        else if \<not> CheckCRC (take n response) then (Err ErrInvalidCRC, c2)
                        else
                          let frame = take (n - 2) response
                          in if frame ! 0 \<noteq> slaveID then (Err ErrInvalidSlaveID, c2)
                             else if frame ! 1 = (FunctionCode pdu OR 0x80)
                             then (if length frame \<ge> 3
                                   then (Err (ModbusError (FunctionCode pdu) (frame ! 2)), c2)
                                   else (Err ErrInvalidResponse, c2))
                             else (Ok (drop 2 frame), c2))"

subsection \<open>The eight operations\<close>

text \<open>
  The methods of \<open>RTUClient\<close> repeat those of \<open>TCPClient\<close> line for line; only the
  receiver, and with it the \<open>sendRequest\<close> called, differs. Each body is written once
  over the \<open>sendRequest\<close> it calls and instantiated for the two clients below.
  \<open>copy(data[5:], coilBytes)\<close> fills the tail of \<open>data\<close> exactly, since
  \<open>len(coilBytes)\<close> is \<open>byteCount\<close> (and \<open>len(regBytes)\<close> is \<open>len(values)*2\<close>).
\<close>

type_synonym 'c sender = "'c \<Rightarrow> byte \<Rightarrow> PDU \<Rightarrow> byte list result \<times> 'c"

definition FuncCodeReadCoils :: byte where "FuncCodeReadCoils = 0x01"
definition FuncCodeReadDiscreteInputs :: byte where "FuncCodeReadDiscreteInputs = 0x02"
definition FuncCodeReadHoldingRegisters :: byte where "FuncCodeReadHoldingRegisters = 0x03"
definition FuncCodeReadInputRegisters :: byte where "FuncCodeReadInputRegisters = 0x04"
definition FuncCodeWriteSingleCoil :: byte where "FuncCodeWriteSingleCoil = 0x05"
definition FuncCodeWriteSingleRegister :: byte where "FuncCodeWriteSingleRegister = 0x06"
definition FuncCodeWriteMultipleCoils :: byte where "FuncCodeWriteMultipleCoils = 0x0F"
definition FuncCodeWriteMultipleRegisters :: byte where "FuncCodeWriteMultipleRegisters = 0x10"

definition read_bits ::
  "'c sender \<Rightarrow> byte \<Rightarrow> 'c \<Rightarrow> byte \<Rightarrow> uint16 \<Rightarrow> uint16 \<Rightarrow> bool list result \<times> 'c" where
  "read_bits sendRequest fc c slaveID addr quantity =
     (if quantity = 0 \<or> quantity > 2000 then (Err ErrInvalidQuantity, c)
      else
        let data = PutUint16 addr @ PutUint16 quantity;
            pdu = \<lparr>FunctionCode = fc, Data = data\<rparr>
        in case sendRequest c slaveID pdu of
             (Err e, c') \<Rightarrow> (Err e, c')
           | (Panic, c') \<Rightarrow> (Panic, c')
           | (Ok response, c') \<Rightarrow>
               if length response < 1 then (Err ErrInvalidResponse, c')
               else (Ok (bytesToBools (drop 1 response) quantity), c'))"

definition read_registers ::
  "'c sender \<Rightarrow> byte \<Rightarrow> 'c \<Rightarrow> byte \<Rightarrow> uint16 \<Rightarrow> uint16 \<Rightarrow> uint16 list result \<times> 'c" where
  "read_registers sendRequest fc c slaveID addr quantity =
     (if quantity = 0 \<or> quantity > 125 then (Err ErrInvalidQuantity, c)
      else
        let data = PutUint16 addr @ PutUint16 quantity;
            pdu = \<lparr>FunctionCode = fc, Data = data\<rparr>
        in case sendRequest c slaveID pdu of
             (Err e, c') \<Rightarrow> (Err e, c')
           | (Panic, c') \<Rightarrow> (Panic, c')
           | (Ok response, c') \<Rightarrow>
               if length response < 1 then (Err ErrInvalidResponse, c')
               else (Ok (bytesToUint16s (drop 1 response)), c'))"

text \<open>The write methods return only the error of \<open>sendRequest\<close>: \<open>_, err := \<dots>; return err\<close>.\<close>

definition discard_payload :: "byte list result \<times> 'c \<Rightarrow> unit result \<times> 'c" where
  "discard_payload r =
     (case r of
        (Err e, c') \<Rightarrow> (Err e, c')
      | (Panic, c') \<Rightarrow> (Panic, c')
      | (Ok response, c') \<Rightarrow> (Ok (), c'))"

definition write_single_coil ::
  "'c sender \<Rightarrow> 'c \<Rightarrow> byte \<Rightarrow> uint16 \<Rightarrow> bool \<Rightarrow> unit result \<times> 'c" where
  "write_single_coil sendRequest c slaveID addr val =
     (let data = PutUint16 addr @ (if val then PutUint16 0xFF00 else PutUint16 0x0000);
          pdu = \<lparr>FunctionCode = FuncCodeWriteSingleCoil, Data = data\<rparr>
      in discard_payload (sendRequest c slaveID pdu))"

definition write_single_register ::
  "'c sender \<Rightarrow> 'c \<Rightarrow> byte \<Rightarrow> uint16 \<Rightarrow> uint16 \<Rightarrow> unit result \<times> 'c" where
  "write_single_register sendRequest c slaveID addr val =
     (let data = PutUint16 addr @ PutUint16 val;
          pdu = \<lparr>FunctionCode = FuncCodeWriteSingleRegister, Data = data\<rparr>
      in discard_payload (sendRequest c slaveID pdu))"

definition write_multiple_coils ::
  "'c sender \<Rightarrow> 'c \<Rightarrow> byte \<Rightarrow> uint16 \<Rightarrow> bool list \<Rightarrow> unit result \<times> 'c" where
  "write_multiple_coils sendRequest c slaveID addr vals =
     (if length vals = 0 \<or> length vals > 1968 then (Err ErrInvalidQuantity, c)
      else
        let byteCount = (length vals + 7) div 8;
            coilBytes = boolsToBytes vals;
            data = PutUint16 addr @ PutUint16 (of_nat (length vals))
                     @ [of_nat byteCount] @ coilBytes;
            pdu = \<lparr>FunctionCode = FuncCodeWriteMultipleCoils, Data = data\<rparr>
        in discard_payload (sendRequest c slaveID pdu))"

definition write_multiple_registers ::
  "'c sender \<Rightarrow> 'c \<Rightarrow> byte \<Rightarrow> uint16 \<Rightarrow> uint16 list \<Rightarrow> unit result \<times> 'c" where
  "write_multiple_registers sendRequest c slaveID addr vals =
     (if length vals = 0 \<or> length vals > 123 then (Err ErrInvalidQuantity, c)
      else
        let regBytes = uint16sToBytes vals;
            data = PutUint16 addr @ PutUint16 (of_nat (length vals))
                     @ [of_nat (length vals * 2)] @ regBytes;
            pdu = \<lparr>FunctionCode = FuncCodeWriteMultipleRegisters, Data = data\<rparr>
        in discard_payload (sendRequest c slaveID pdu))"

definition TCPClient_ReadCoils ::
  "TCPClient \<Rightarrow> byte \<Rightarrow> uint16 \<Rightarrow> uint16 \<Rightarrow> bool list result \<times> TCPClient" where
  "TCPClient_ReadCoils = read_bits TCPClient_sendRequest FuncCodeReadCoils"

definition TCPClient_ReadDiscreteInputs ::
  "TCPClient \<Rightarrow> byte \<Rightarrow> uint16 \<Rightarrow> uint16 \<Rightarrow> bool list result \<times> TCPClient" where
  "TCPClient_ReadDiscreteInputs = read_bits TCPClient_sendRequest FuncCodeReadDiscreteInputs"

definition TCPClient_ReadHoldingRegisters ::
  "TCPClient \<Rightarrow> byte \<Rightarrow> uint16 \<Rightarrow> uint16 \<Rightarrow> uint16 list result \<times> TCPClient" where
  "TCPClient_ReadHoldingRegisters =
     read_registers TCPClient_sendRequest FuncCodeReadHoldingRegisters"

definition TCPClient_ReadInputRegisters ::
  "TCPClient \<Rightarrow> byte \<Rightarrow> uint16 \<Rightarrow> uint16 \<Rightarrow> uint16 list result \<times> TCPClient" where
  "TCPClient_ReadInputRegisters =
     read_registers TCPClient_sendRequest FuncCodeReadInputRegisters"

definition TCPClient_WriteSingleCoil ::
  "TCPClient \<Rightarrow> byte \<Rightarrow> uint16 \<Rightarrow> bool \<Rightarrow> unit result \<times> TCPClient" where
  "TCPClient_WriteSingleCoil = write_single_coil TCPClient_sendRequest"

definition TCPClient_WriteSingleRegister ::
  "TCPClient \<Rightarrow> byte \<Rightarrow> uint16 \<Rightarrow> uint16 \<Rightarrow> unit result \<times> TCPClient" where
  "TCPClient_WriteSingleRegister = write_single_register TCPClient_sendRequest"

definition TCPClient_WriteMultipleCoils ::
  "TCPClient \<Rightarrow> byte \<Rightarrow> uint16 \<Rightarrow> bool list \<Rightarrow> unit result \<times> TCPClient" where
  "TCPClient_WriteMultipleCoils = write_multiple_coils TCPClient_sendRequest"

definition TCPClient_WriteMultipleRegisters ::
  "TCPClient \<Rightarrow> byte \<Rightarrow> uint16 \<Rightarrow> uint16 list \<Rightarrow> unit result \<times> TCPClient" where
  "TCPClient_WriteMultipleRegisters = write_multiple_registers TCPClient_sendRequest"

definition RTUClient_ReadCoils ::
  "RTUClient \<Rightarrow> byte \<Rightarrow> uint16 \<Rightarrow> uint16 \<Rightarrow> bool list result \<times> RTUClient" where
  "RTUClient_ReadCoils = read_bits RTUClient_sendRequest FuncCodeReadCoils"

definition RTUClient_ReadDiscreteInputs ::
  "RTUClient \<Rightarrow> byte \<Rightarrow> uint16 \<Rightarrow> uint16 \<Rightarrow> bool list result \<times> RTUClient" where
  "RTUClient_ReadDiscreteInputs = read_bits RTUClient_sendRequest FuncCodeReadDiscreteInputs"

definition RTUClient_ReadHoldingRegisters ::
  "RTUClient \<Rightarrow> byte \<Rightarrow> uint16 \<Rightarrow> uint16 \<Rightarrow> uint16 list result \<times> RTUClient" where
  "RTUClient_ReadHoldingRegisters =
     read_registers RTUClient_sendRequest FuncCodeReadHoldingRegisters"

definition RTUClient_ReadInputRegisters ::
  "RTUClient \<Rightarrow> byte \<Rightarrow> uint16 \<Rightarrow> uint16 \<Rightarrow> uint16 list result \<times> RTUClient" where
  "RTUClient_ReadInputRegisters =
     read_registers RTUClient_sendRequest FuncCodeReadInputRegisters"

definition RTUClient_WriteSingleCoil ::
  "RTUClient \<Rightarrow> byte \<Rightarrow> uint16 \<Rightarrow> bool \<Rightarrow> unit result \<times> RTUClient" where
  "RTUClient_WriteSingleCoil = write_single_coil RTUClient_sendRequest"

definition RTUClient_WriteSingleRegister ::
  "RTUClient \<Rightarrow> byte \<Rightarrow> uint16 \<Rightarrow> uint16 \<Rightarrow> unit result \<times> RTUClient" where
  "RTUClient_WriteSingleRegister = write_single_register RTUClient_sendRequest"

definition RTUClient_WriteMultipleCoils ::
  "RTUClient \<Rightarrow> byte \<Rightarrow> uint16 \<Rightarrow> bool list \<Rightarrow> unit result \<times> RTUClient" where
  "RTUClient_WriteMultipleCoils = write_multiple_coils RTUClient_sendRequest"

definition RTUClient_WriteMultipleRegisters ::
  "RTUClient \<Rightarrow> byte \<Rightarrow> uint16 \<Rightarrow> uint16 list \<Rightarrow> unit result \<times> RTUClient" where
  "RTUClient_WriteMultipleRegisters = write_multiple_registers RTUClient_sendRequest"

text \<open>
  A sequence of calls on one stream client, each call leaving the client it is given
  to the next (the results are dropped; only the client's state is followed).
\<close>

datatype call =
    ReadCoils byte uint16 uint16
  | ReadDiscreteInputs byte uint16 uint16
  | ReadHoldingRegisters byte uint16 uint16
  | ReadInputRegisters byte uint16 uint16
  | WriteSingleCoil byte uint16 bool
  | WriteSingleRegister byte uint16 uint16
  | WriteMultipleCoils byte uint16 "bool list"
  | WriteMultipleRegisters byte uint16 "uint16 list"

fun TCPClient_call :: "TCPClient \<Rightarrow> call \<Rightarrow> TCPClient" where
  "TCPClient_call c (ReadCoils s a q) = snd (TCPClient_ReadCoils c s a q)"
| "TCPClient_call c (ReadDiscreteInputs s a q) = snd (TCPClient_ReadDiscreteInputs c s a q)"
| "TCPClient_call c (ReadHoldingRegisters s a q) = snd (TCPClient_ReadHoldingRegisters c s a q)"
| "TCPClient_call c (ReadInputRegisters s a q) = snd (TCPClient_ReadInputRegisters c s a q)"
| "TCPClient_call c (WriteSingleCoil s a v) = snd (TCPClient_WriteSingleCoil c s a v)"
| "TCPClient_call c (WriteSingleRegister s a v) = snd (TCPClient_WriteSingleRegister c s a v)"
| "TCPClient_call c (WriteMultipleCoils s a vs) = snd (TCPClient_WriteMultipleCoils c s a vs)"
| "TCPClient_call c (WriteMultipleRegisters s a vs) =
     snd (TCPClient_WriteMultipleRegisters c s a vs)"

fun TCPClient_calls :: "TCPClient \<Rightarrow> call list \<Rightarrow> TCPClient" where
  "TCPClient_calls c [] = c"
| "TCPClient_calls c (x # xs) = TCPClient_calls (TCPClient_call c x) xs"

text \<open>
  The guard each call passes before it reaches \<open>sendRequest\<close>, and the transaction
  ids of the frames a client has written so far (the first two bytes of each frame,
  big-endian).
\<close>

fun passes_guard :: "call \<Rightarrow> bool" where
  "passes_guard (ReadCoils s a q) = (\<not> (q = 0 \<or> q > 2000))"
| "passes_guard (ReadDiscreteInputs s a q) = (\<not> (q = 0 \<or> q > 2000))"
| "passes_guard (ReadHoldingRegisters s a q) = (\<not> (q = 0 \<or> q > 125))"
| "passes_guard (ReadInputRegisters s a q) = (\<not> (q = 0 \<or> q > 125))"
| "passes_guard (WriteSingleCoil s a v) = True"
| "passes_guard (WriteSingleRegister s a v) = True"
| "passes_guard (WriteMultipleCoils s a vs) = (\<not> (length vs = 0 \<or> length vs > 1968))"
| "passes_guard (WriteMultipleRegisters s a vs) = (\<not> (length vs = 0 \<or> length vs > 123))"

definition frames_written :: "channel option \<Rightarrow> byte list list" where
  "frames_written p = (case p of None \<Rightarrow> [] | Some ch \<Rightarrow> writes ch)"

definition frame_id :: "byte list \<Rightarrow> uint16" where
  "frame_id f = Uint16 (f ! 0) (f ! 1)"

definition io_count :: "channel option \<Rightarrow> nat" where
  "io_count p = (case p of None \<Rightarrow> 0 | Some ch \<Rightarrow> length (writes ch) + reads ch)"

section \<open>Word and byte facts\<close>

lemma xFF_mask: "(0xFF :: 'a::len word) = mask 8"
  by (simp add: mask_eq_exp_minus_1)

lemma u16_join_bytes:
  "(ucast (ucast (crc AND 0xFF) :: byte) :: uint16)
     OR push_bit 8 (ucast (ucast (drop_bit 8 crc AND 0xFF) :: byte)) = (crc :: uint16)"
  unfolding xFF_mask
  by (rule bit_word_eqI) (auto simp: bit_simps)

lemma u16_hi_lo:
  "push_bit 8 (ucast (ucast (drop_bit 8 v) :: byte) :: uint16)
     OR ucast (ucast (v AND 0xFF) :: byte) = (v :: uint16)"
  unfolding xFF_mask
  by (rule bit_word_eqI) (auto simp: bit_simps)

lemma ucast_low_byte: "(ucast ((v :: uint16) AND 0xFF) :: byte) = ucast v"
  unfolding xFF_mask
  by (rule bit_word_eqI) (auto simp: bit_simps)

lemma u16_join_plain:
  "(ucast (ucast crc :: byte) :: uint16)
     OR push_bit 8 (ucast (ucast (drop_bit 8 crc) :: byte)) = (crc :: uint16)"
  by (rule bit_word_eqI) (auto simp: bit_simps)

lemma Uint16_PutUint16: "Uint16 (PutUint16 v ! 0) (PutUint16 v ! 1) = v"
  unfolding Uint16_def PutUint16_def
  by (rule bit_word_eqI) (auto simp: bit_simps)

lemma byte_test_bit: "((x :: byte) AND push_bit n 1 \<noteq> 0) = bit x n"
  by (simp add: and_exp_eq_0_iff_not_bit)

lemma ucast_succ_32_16: "(ucast (t + 1 :: uint32) :: uint16) = ucast t + 1"
proof -
  have u: "unat (t + 1) = (unat t + 1) mod 2 ^ 32"
    by (simp add: unat_word_ariths)
  have A: "(of_nat ((unat t + 1) mod 2 ^ 32) :: uint16) = of_nat (unat t + 1)"
    unfolding word_of_nat_eq_iff take_bit_eq_mod
    by (simp add: mod_mod_cancel)
  have "(ucast (t + 1) :: uint16) = of_nat (unat (t + 1))"
    by simp
  also have "\<dots> = of_nat ((unat t + 1) mod 2 ^ 32)"
    by (simp only: u)
  also have "\<dots> = (of_nat (unat t + 1) :: uint16)"
    by (rule A)
  also have "\<dots> = ucast t + 1"
    by simp
  finally show ?thesis .
qed


section \<open>The checksum engine\<close>

lemma CheckCRC_short: "length d < 3 \<Longrightarrow> \<not> CheckCRC d"
  by (simp add: CheckCRC_def)

text \<open>
  C2, as stated: ``for every byte sequence \<open>x\<close>, \<open>CheckCRC (AppendCRC x)\<close> is true''.
  It fails at the empty sequence: \<open>AppendCRC []\<close> is the two checksum bytes alone, and
  \<open>CheckCRC\<close> refuses every input shorter than three bytes.
\<close>

theorem C2_empty_counterexample: "\<not> CheckCRC (AppendCRC [])"
  by (simp add: CheckCRC_def AppendCRC_def Let_def)

text \<open>
  C2, amended: for every non-empty byte sequence \<open>x\<close>, \<open>AppendCRC x\<close> is \<open>x\<close> followed
  by the low byte and then the high byte of \<open>CRC16 x\<close>, and \<open>CheckCRC (AppendCRC x)\<close>
  is true.
\<close>

theorem C2_CheckCRC_AppendCRC:
  "x \<noteq> [] \<Longrightarrow>
     AppendCRC x = x @ [ucast (CRC16 x), ucast (drop_bit 8 (CRC16 x))]
     \<and> CheckCRC (AppendCRC x)"
  by (cases x)
    (simp_all add: CheckCRC_def AppendCRC_def Let_def nth_append u16_join_plain ucast_low_byte)

theorem C2_CheckCRC_AppendCRC_witness:
  "[1, 0x81, 2 :: byte] \<noteq> [] \<and> CheckCRC (AppendCRC [1, 0x81, 2])"
proof -
  have ne: "[1, 0x81, 2 :: byte] \<noteq> []"
    by simp
  from C2_CheckCRC_AppendCRC [OF ne] have "CheckCRC (AppendCRC [1, 0x81, 2])"
    by (rule conjunct2)
  with ne show ?thesis
    by (rule conjI)
qed

section \<open>The data codec: registers\<close>

lemma length_uint16sToBytes_loop [simp]:
  "length (uint16sToBytes_loop vals i result) = length result"
  by (induction vals arbitrary: i result) simp_all

lemma uint16sToBytes_loop_outside:
  "k < i * 2 \<or> (i + length vals) * 2 \<le> k \<Longrightarrow>
     uint16sToBytes_loop vals i result ! k = result ! k"
proof (induction vals arbitrary: i result)
  case Nil
  then show ?case by simp
next
  case (Cons v vs)
  have "uint16sToBytes_loop vs (i + 1)
          ((result[i * 2 := ucast (drop_bit 8 v)])[i * 2 + 1 := ucast (v AND 0xFF)]) ! k
        = ((result[i * 2 := ucast (drop_bit 8 v)])[i * 2 + 1 := ucast (v AND 0xFF)]) ! k"
    using Cons.prems by (intro Cons.IH) auto
  also have "\<dots> = result ! k"
    using Cons.prems by auto
  finally show ?case by simp
qed

lemma uint16sToBytes_loop_inside:
  "j < length vals \<Longrightarrow> (i + length vals) * 2 \<le> length result \<Longrightarrow>
     uint16sToBytes_loop vals i result ! ((i + j) * 2) = ucast (drop_bit 8 (vals ! j))
     \<and> uint16sToBytes_loop vals i result ! ((i + j) * 2 + 1) = ucast (vals ! j AND 0xFF)"
proof (induction vals arbitrary: i j result)
  case Nil
  then show ?case by simp
next
  case (Cons v vs)
  let ?r = "(result[i * 2 := ucast (drop_bit 8 v)])[i * 2 + 1 := ucast (v AND 0xFF)]"
  show ?case
  proof (cases j)
    case 0
    have "uint16sToBytes_loop vs (i + 1) ?r ! (i * 2) = ?r ! (i * 2)"
      by (rule uint16sToBytes_loop_outside) simp
    moreover have "uint16sToBytes_loop vs (i + 1) ?r ! (i * 2 + 1) = ?r ! (i * 2 + 1)"
      by (rule uint16sToBytes_loop_outside) simp
    ultimately show ?thesis
      using 0 Cons.prems by simp
  next
    case (Suc j')
    have "uint16sToBytes_loop vs (i + 1) ?r ! ((i + 1 + j') * 2) = ucast (drop_bit 8 (vs ! j'))
          \<and> uint16sToBytes_loop vs (i + 1) ?r ! ((i + 1 + j') * 2 + 1) = ucast (vs ! j' AND 0xFF)"
      using Suc Cons.prems by (intro Cons.IH) simp_all
    then show ?thesis
      using Suc by simp
  qed
qed

lemma length_bytesToUint16s_loop [simp]:
  "length (bytesToUint16s_loop data i result) = length result"
  by (induction data i result rule: bytesToUint16s_loop.induct)
    (subst bytesToUint16s_loop.simps, simp)

lemma bytesToUint16s_loop_nth:
  "k < length result \<Longrightarrow>
     bytesToUint16s_loop data i result ! k =
       (if i \<le> k then push_bit 8 (ucast (data ! (k * 2))) OR ucast (data ! (k * 2 + 1))
        else result ! k)"
proof (induction data i result rule: bytesToUint16s_loop.induct)
  case (1 data i result)
  show ?case
  proof (cases "i < length result")
    case True
    with "1.IH" "1.prems" show ?thesis
      by (subst bytesToUint16s_loop.simps) (auto simp: nth_list_update not_less_eq_eq le_Suc_eq)
  next
    case False
    with "1.prems" show ?thesis
      by (subst bytesToUint16s_loop.simps) simp
  qed
qed

lemma length_uint16sToBytes: "length (uint16sToBytes vs) = length vs * 2"
  by (simp add: uint16sToBytes_def)

lemma length_bytesToUint16s: "length (bytesToUint16s bs) = length bs div 2"
  by (simp add: bytesToUint16s_def)

text \<open>
  C9: for every register sequence \<open>vs\<close>, \<open>bytesToUint16s (uint16sToBytes vs) = vs\<close>;
  the encoder writes each register big-endian, high byte at the even position and low
  byte after it, two bytes per register; the decoder returns exactly \<open>len(bytes)/2\<close>
  registers for every byte sequence.
\<close>

theorem C9_registers_roundtrip:
  "bytesToUint16s (uint16sToBytes vs) = vs
   \<and> length (bytesToUint16s bs) = length bs div 2
   \<and> length (uint16sToBytes vs) = length vs * 2
   \<and> (\<forall>j < length vs. uint16sToBytes vs ! (j * 2) = ucast (drop_bit 8 (vs ! j))
          \<and> uint16sToBytes vs ! (j * 2 + 1) = ucast (vs ! j))"
proof -
  have enc: "uint16sToBytes vs ! (j * 2) = ucast (drop_bit 8 (vs ! j))
         \<and> uint16sToBytes vs ! (j * 2 + 1) = ucast (vs ! j AND 0xFF)" if "j < length vs" for j
    using uint16sToBytes_loop_inside [of j vs 0 "replicate (length vs * 2) 0"] that
    by (simp add: uint16sToBytes_def)
  have "bytesToUint16s (uint16sToBytes vs) = vs"
  proof (rule nth_equalityI)
    show "length (bytesToUint16s (uint16sToBytes vs)) = length vs"
      by (simp add: length_bytesToUint16s length_uint16sToBytes)
  next
    fix k assume "k < length (bytesToUint16s (uint16sToBytes vs))"
    then have k: "k < length vs"
      by (simp add: length_bytesToUint16s length_uint16sToBytes)
    then have "bytesToUint16s (uint16sToBytes vs) ! k =
        push_bit 8 (ucast (uint16sToBytes vs ! (k * 2))) OR ucast (uint16sToBytes vs ! (k * 2 + 1))"
      by (simp add: bytesToUint16s_def bytesToUint16s_loop_nth length_uint16sToBytes)
    also have "\<dots> = vs ! k"
      using enc [OF k] by (simp add: u16_hi_lo)
    finally show "bytesToUint16s (uint16sToBytes vs) ! k = vs ! k" .
  qed
  with enc show ?thesis
    by (simp add: length_bytesToUint16s length_uint16sToBytes ucast_low_byte)
qed

theorem C9_registers_roundtrip_witness:
  "(1 :: nat) < length [0x1234, 0xABCD :: uint16]
   \<and> bytesToUint16s (uint16sToBytes [0x1234, 0xABCD]) = [0x1234, 0xABCD]
   \<and> length (bytesToUint16s [1, 2, 3]) = 1
   \<and> uint16sToBytes [0x1234, 0xABCD] ! 2 = ucast (drop_bit 8 (0xABCD :: uint16))
   \<and> uint16sToBytes [0x1234, 0xABCD] ! 3 = ucast (0xABCD :: uint16)"
  using C9_registers_roundtrip [of "[0x1234, 0xABCD]" "[1, 2, 3]"]
  by (auto dest: spec [of _ 1])

section \<open>The data codec: bits\<close>

lemma length_boolsToBytes_loop [simp]:
  "length (boolsToBytes_loop vals i result) = length result"
  by (induction vals arbitrary: i result) (simp_all add: Let_def)

lemma bit_one_shifted: "bit (push_bit m 1 :: byte) b = (b = m \<and> m < 8)"
  by (auto simp: bit_simps)

lemma div_mod_pos: "(j = i div 8 \<and> b = i mod 8) = (b < 8 \<and> j * 8 + b = (i :: nat))"
  by auto

lemma boolsToBytes_loop_bit:
  "i + length vals \<le> length result * 8 \<Longrightarrow> j < length result \<Longrightarrow>
     bit (boolsToBytes_loop vals i result ! j) b =
       (bit (result ! j) b
        \<or> (b < 8 \<and> i \<le> j * 8 + b \<and> j * 8 + b < i + length vals \<and> vals ! (j * 8 + b - i)))"
proof (induction vals arbitrary: i result)
  case Nil
  then show ?case by auto
next
  case (Cons v vs)
  let ?r = "if v then result[i div 8 := result ! (i div 8) OR push_bit (i mod 8) 1] else result"
  have len: "length ?r = length result"
    by simp
  from Cons.prems have idx: "i div 8 < length result"
    by simp
  have step: "bit (?r ! j) b = (bit (result ! j) b \<or> (v \<and> j = i div 8 \<and> b = i mod 8))"
    using Cons.prems(2) idx by (auto simp: nth_list_update bit_simps)
  have "bit (boolsToBytes_loop vs (i + 1) ?r ! j) b =
       (bit (?r ! j) b
        \<or> (b < 8 \<and> i + 1 \<le> j * 8 + b \<and> j * 8 + b < i + 1 + length vs
            \<and> vs ! (j * 8 + b - (i + 1))))"
    using Cons.prems by (intro Cons.IH) (simp_all only: len, simp_all)
  also have "\<dots> = (bit (result ! j) b
        \<or> (b < 8 \<and> i \<le> j * 8 + b \<and> j * 8 + b < i + length (v # vs)
            \<and> (v # vs) ! (j * 8 + b - i)))"
    unfolding step div_mod_pos
    by (cases "j * 8 + b = i") (auto simp: nth_Cons')
  finally have main: "bit (boolsToBytes_loop vs (i + 1) ?r ! j) b =
       (bit (result ! j) b
        \<or> (b < 8 \<and> i \<le> j * 8 + b \<and> j * 8 + b < i + length (v # vs)
            \<and> (v # vs) ! (j * 8 + b - i)))" .
  have eq: "boolsToBytes_loop (v # vs) i result = boolsToBytes_loop vs (i + 1) ?r"
    by (simp add: Let_def)
  from main show ?case
    by (simp only: eq)
qed

lemma length_boolsToBytes: "length (boolsToBytes xs) = (length xs + 7) div 8"
  by (simp add: boolsToBytes_def)

lemma boolsToBytes_bit:
  assumes "j < length (boolsToBytes xs)"
  shows "bit (boolsToBytes xs ! j) b = (b < 8 \<and> j * 8 + b < length xs \<and> xs ! (j * 8 + b))"
proof -
  from assms have j: "j < (length xs + 7) div 8"
    by (simp add: length_boolsToBytes)
  have "0 + length xs \<le> length (replicate ((length xs + 7) div 8) (0 :: byte)) * 8"
    by simp
  from boolsToBytes_loop_bit [OF this, of j b] j show ?thesis
    by (simp add: boolsToBytes_def)
qed

lemma u16_succ:
  assumes "(i :: uint16) < q"
  shows "unat (i + 1) = Suc (unat i)"
proof -
  from assms have "unat i < unat q"
    by (simp add: word_less_nat_alt)
  moreover have "unat q < 2 ^ 16"
    using unsigned_less [of q] by simp
  ultimately have "unat i + unat (1 :: uint16) < 2 ^ LENGTH(16)"
    by simp
  then have "unat (i + 1) = unat i + unat (1 :: uint16)"
    by (simp only: unat_add_lem)
  then show ?thesis
    by simp
qed

lemma length_bytesToBools_loop [simp]:
  "length (bytesToBools_loop data q i result) = length result"
  by (induction data q i result rule: bytesToBools_loop.induct)
    (subst bytesToBools_loop.simps, simp add: Let_def)

lemma byte_test_bit_exp: "((x :: byte) AND 2 ^ n \<noteq> 0) = bit x n"
  by (simp add: and_exp_eq_0_iff_not_bit)

lemma bytesToBools_loop_nth:
  "k < length result \<Longrightarrow>
     bytesToBools_loop data q i result ! k =
       (if unat i \<le> k \<and> k < unat q \<and> k div 8 < length data mod 65536
        then bit (data ! (k div 8)) (k mod 8)
        else result ! k)"
proof (induction data q i result rule: bytesToBools_loop.induct)
  case (1 data q i result)
  show ?case
  proof (cases "i < q")
    case False
    then have "\<not> (unat i \<le> k \<and> k < unat q)"
      by (auto simp: word_less_nat_alt)
    with False show ?thesis
      by (subst bytesToBools_loop.simps) auto
  next
    case True
    let ?r = "if i div 8 < of_nat (length data)
              then result[unat i := (data ! unat (i div 8) AND push_bit (unat (i mod 8)) 1 \<noteq> 0)]
              else result"
    have suc: "unat (i + 1) = Suc (unat i)"
      using True by (rule u16_succ)
    have iq: "unat i < unat q"
      using True by (simp add: word_less_nat_alt)
    have cond: "(i div 8 < (of_nat (length data) :: uint16)) = (unat i div 8 < length data mod 65536)"
      by (simp add: word_less_nat_alt unat_div unat_of_nat)
    have r_at: "?r ! k = (if k = unat i \<and> unat i div 8 < length data mod 65536
                 then bit (data ! (unat i div 8)) (unat i mod 8)
                 else result ! k)"
      using "1.prems" by (auto simp: cond byte_test_bit_exp unat_div unat_mod nth_list_update)
    have "bytesToBools_loop data q i result ! k = bytesToBools_loop data q (i + 1) ?r ! k"
      using True by (subst bytesToBools_loop.simps) (simp add: Let_def)
    also have "\<dots> = (if unat (i + 1) \<le> k \<and> k < unat q \<and> k div 8 < length data mod 65536
        then bit (data ! (k div 8)) (k mod 8)
        else ?r ! k)"
      using True "1.prems" by (intro "1.IH" [OF True refl refl]) simp
    also have "\<dots> = (if unat i \<le> k \<and> k < unat q \<and> k div 8 < length data mod 65536
        then bit (data ! (k div 8)) (k mod 8)
        else result ! k)"
      unfolding r_at suc using iq by (auto simp: not_less_eq_eq le_Suc_eq)
    finally show ?thesis .
  qed
qed

lemma bytesToBools_nth:
  "k < unat q \<Longrightarrow>
     bytesToBools data q ! k =
       (k div 8 < length data mod 65536 \<and> bit (data ! (k div 8)) (k mod 8))"
  by (simp add: bytesToBools_def bytesToBools_loop_nth)

lemma length_bytesToBools: "length (bytesToBools data q) = unat q"
  by (simp add: bytesToBools_def)

text \<open>
  C8: for every bit sequence \<open>xs\<close> whose length is the quantity \<open>q\<close> (a \<open>uint16\<close>),
  \<open>bytesToBools (boolsToBytes xs) q = xs\<close>. The packed form has
  \<open>(len + 7) / 8\<close> bytes, and bit \<open>b\<close> of byte \<open>j\<close> holds element \<open>8 j + b\<close> of the
  sequence when there is one and is zero otherwise: element \<open>i\<close> sits at bit
  \<open>i mod 8\<close> of byte \<open>i div 8\<close>, and the unused high bits of the last byte are zero.
\<close>

theorem C8_bits_roundtrip:
  "(length xs = unat q \<longrightarrow> bytesToBools (boolsToBytes xs) q = xs)
   \<and> length (boolsToBytes xs) = (length xs + 7) div 8
   \<and> (\<forall>j < length (boolsToBytes xs). \<forall>b < 8.
         bit (boolsToBytes xs ! j) b = (j * 8 + b < length xs \<and> xs ! (j * 8 + b)))"
proof (intro conjI impI allI)
  assume len: "length xs = unat q"
  show "bytesToBools (boolsToBytes xs) q = xs"
  proof (rule nth_equalityI)
    show "length (bytesToBools (boolsToBytes xs) q) = length xs"
      by (simp add: length_bytesToBools len)
  next
    fix k assume "k < length (bytesToBools (boolsToBytes xs) q)"
    then have k: "k < length xs"
      by (simp add: length_bytesToBools len)
    have "unat q < 2 ^ 16"
      using unsigned_less [of q] by simp
    with len have small: "(length xs + 7) div 8 < 65536"
      by simp
    from k have kb: "k div 8 < (length xs + 7) div 8"
      by simp
    have "bytesToBools (boolsToBytes xs) q ! k =
        (k div 8 < length (boolsToBytes xs) mod 65536
         \<and> bit (boolsToBytes xs ! (k div 8)) (k mod 8))"
      using k len by (simp add: bytesToBools_nth)
    also have "\<dots> = bit (boolsToBytes xs ! (k div 8)) (k mod 8)"
      using small kb by (simp add: length_boolsToBytes)
    also have "\<dots> = (k mod 8 < 8 \<and> k div 8 * 8 + k mod 8 < length xs
                        \<and> xs ! (k div 8 * 8 + k mod 8))"
      using kb by (intro boolsToBytes_bit) (simp add: length_boolsToBytes)
    also have "\<dots> = xs ! k"
      using k by simp
    finally show "bytesToBools (boolsToBytes xs) q ! k = xs ! k" .
  qed
next
  show "length (boolsToBytes xs) = (length xs + 7) div 8"
    by (rule length_boolsToBytes)
next
  fix j b assume "j < length (boolsToBytes xs)" and "b < (8 :: nat)"
  then show "bit (boolsToBytes xs ! j) b = (j * 8 + b < length xs \<and> xs ! (j * 8 + b))"
    by (simp add: boolsToBytes_bit)
qed

theorem C8_bits_roundtrip_witness:
  "length [True, False, True, True, False, False, False, False, True] = unat (9 :: uint16)
   \<and> bytesToBools (boolsToBytes [True, False, True, True, False, False, False, False, True]) 9
       = [True, False, True, True, False, False, False, False, True]
   \<and> length (boolsToBytes [True, False, True, True, False, False, False, False, True]) = 2
   \<and> (1 :: nat) < 2 \<and> (0 :: nat) < 8 \<and> (1 :: nat) < 8
   \<and> bit (boolsToBytes [True, False, True, True, False, False, False, False, True] ! 1) (0 :: nat)
   \<and> \<not> bit (boolsToBytes [True, False, True, True, False, False, False, False, True] ! 1) (1 :: nat)"
proof -
  let ?xs = "[True, False, True, True, False, False, False, False, True]"
  note inst = C8_bits_roundtrip [of ?xs 9]
  have len: "length ?xs = unat (9 :: uint16)"
    by simp
  from inst len have rt: "bytesToBools (boolsToBytes ?xs) 9 = ?xs"
    by blast
  from inst have l2: "length (boolsToBytes ?xs) = 2"
    by simp
  from inst have lay: "\<forall>j < length (boolsToBytes ?xs). \<forall>b < 8.
         bit (boolsToBytes ?xs ! j) b = (j * 8 + b < length ?xs \<and> ?xs ! (j * 8 + b))"
    by blast
  have j: "(1 :: nat) < length (boolsToBytes ?xs)"
    by (simp add: l2)
  from lay j have b0: "bit (boolsToBytes ?xs ! 1) (0 :: nat)"
    by simp
  from lay j have b1: "\<not> bit (boolsToBytes ?xs ! 1) (1 :: nat)"
    by simp
  from len rt l2 b0 b1 show ?thesis
    by simp
qed

section \<open>The two transports\<close>

lemma length_copy_into [simp]: "length (copy_into buf avail) = length buf"
  by (auto simp: copy_into_def Let_def)

lemma take_copy_into:
  "take (min (length avail) (length buf)) (copy_into buf avail) = take (length buf) avail"
  by (auto simp: copy_into_def Let_def min_def)

lemma take_less_copy_into:
  "m \<le> min (length avail) (length buf) \<Longrightarrow> take m (copy_into buf avail) = take m avail"
  by (auto simp: copy_into_def Let_def min_def)

lemma nth_copy_into:
  "k < min (length avail) (length buf) \<Longrightarrow> copy_into buf avail ! k = avail ! k"
  by (auto simp: copy_into_def Let_def min_def nth_append)

lemmas tcp_defs = TCPClient_sendRequest_def chan_Write_def chan_Read_def Let_def
lemmas rtu_defs = RTUClient_sendRequest_def chan_Write_def chan_Read_def Let_def

lemma TCPClient_sendRequest_decode:
  assumes "conn c = Some ch"
    and "write_result ch (length (writes ch)) = None"
    and "read_result ch (reads ch) = (avail, None)"
    and "header = copy_into (replicate 7 0) avail"
    and "Uint16 (header ! 0) (header ! 1) = ucast (transactionID c + 1)"
    and "read_result ch (reads ch + 1) = (avail2, None)"
    and "pduData = copy_into (replicate (unat (Uint16 (header ! 4) (header ! 5) - 1)) 0) avail2"
  shows "fst (TCPClient_sendRequest c slaveID pdu) =
     (if length pduData < 1 then Panic
      else if pduData ! 0 = (FunctionCode pdu OR 0x80)
      then (if length pduData \<ge> 2 then Err (ModbusError (FunctionCode pdu) (pduData ! 1))
            else Err ErrInvalidResponse)
      else Ok (drop 1 pduData))"
  using assms
  by (simp add: tcp_defs)

lemma RTUClient_sendRequest_decode:
  assumes "port c = Some ch"
    and "write_result ch (length (writes ch)) = None"
    and "read_result ch (reads ch) = (avail, None)"
    and "received = take 260 avail"
  shows "fst (RTUClient_sendRequest c slaveID pdu) =
     (if length received < 4 then Err ErrTimeout
      else if \<not> CheckCRC received then Err ErrInvalidCRC
      else if received ! 0 \<noteq> slaveID then Err ErrInvalidSlaveID
      else if received ! 1 = (FunctionCode pdu OR 0x80)
      then (if length received \<ge> 5 then Err (ModbusError (FunctionCode pdu) (received ! 2))
            else Err ErrInvalidResponse)
      else Ok (drop 2 (take (length received - 2) received)))"
proof -
  let ?n = "min (length avail) 260"
  let ?resp = "copy_into (replicate 260 0) avail"
  have n: "length received = ?n"
    using assms(4) by simp
  have rec: "take ?n ?resp = received"
    using take_copy_into [of avail "replicate 260 0"] assms(4) by simp
  have fr: "take (?n - 2) ?resp = take (length received - 2) received"
  proof -
    have "take (?n - 2) ?resp = take (?n - 2) avail"
      by (rule take_less_copy_into) (auto simp: min_def)
    also have "\<dots> = take (length received - 2) received"
      unfolding assms(4) by (auto simp: min_def)
    finally show ?thesis .
  qed
  have nth: "k < length received - 2 \<Longrightarrow> take (?n - 2) ?resp ! k = received ! k" for k
    unfolding fr by simp
  have len_fr: "length (take (?n - 2) ?resp) = length received - 2"
    unfolding fr by simp
  show ?thesis
  proof (cases "length received < 4")
    case True
    then have "?n < 4"
      using n by simp
    then have "fst (RTUClient_sendRequest c slaveID pdu) = Err ErrTimeout"
      using assms(1-3) by (auto simp: rtu_defs)
    with True show ?thesis
      by simp
  next
    case False
    then have n4: "\<not> ?n < 4"
      using n by simp
    from False have "0 < length received - 2" "1 < length received - 2"
      by simp_all
    then have f0: "take (?n - 2) ?resp ! 0 = received ! 0"
      and f1: "take (?n - 2) ?resp ! 1 = received ! 1"
      by (simp_all only: nth)
    show ?thesis
    proof (cases "CheckCRC received")
      case crc_bad: False
      have "\<not> CheckCRC (take ?n ?resp)"
        unfolding rec by (rule crc_bad)
      with n4 have "fst (RTUClient_sendRequest c slaveID pdu) = Err ErrInvalidCRC"
        using assms(1-3) by (auto simp: rtu_defs)
      with False crc_bad show ?thesis
        by simp
    next
      case crc_ok: True
      have crc: "CheckCRC (take ?n ?resp)"
        unfolding rec by (rule crc_ok)
      show ?thesis
      proof (cases "received ! 0 = slaveID")
        case sid_bad: False
        with f0 have "take (?n - 2) ?resp ! 0 \<noteq> slaveID"
          by simp
        with n4 crc have "fst (RTUClient_sendRequest c slaveID pdu) = Err ErrInvalidSlaveID"
          using assms(1-3) by (auto simp: rtu_defs)
        with False crc_ok sid_bad show ?thesis
          by simp
      next
        case sid_ok: True
        with f0 have sid: "take (?n - 2) ?resp ! 0 = slaveID"
          by simp
        show ?thesis
        proof (cases "received ! 1 = (FunctionCode pdu OR 0x80)")
          case exc: True
          with f1 have e1: "take (?n - 2) ?resp ! 1 = (FunctionCode pdu OR 0x80)"
            by simp
          show ?thesis
          proof (cases "length received \<ge> 5")
            case long: True
            then have l3: "length (take (?n - 2) ?resp) \<ge> 3"
              using len_fr by simp
            from long have f2: "take (?n - 2) ?resp ! 2 = received ! 2"
              by (intro nth) simp
            from n4 crc sid e1 l3
            have "fst (RTUClient_sendRequest c slaveID pdu)
                  = Err (ModbusError (FunctionCode pdu) (take (?n - 2) ?resp ! 2))"
              using assms(1-3) by (auto simp: rtu_defs)
            with False crc_ok sid_ok exc long f2 show ?thesis
              by simp
          next
            case short: False
            then have l3: "\<not> length (take (?n - 2) ?resp) \<ge> 3"
              using len_fr by simp
            from n4 crc sid e1 l3
            have "fst (RTUClient_sendRequest c slaveID pdu) = Err ErrInvalidResponse"
              using assms(1-3) by (auto simp: rtu_defs)
            with False crc_ok sid_ok exc short show ?thesis
              by simp
          qed
        next
          case no_exc: False
          with f1 have e1: "take (?n - 2) ?resp ! 1 \<noteq> (FunctionCode pdu OR 0x80)"
            by simp
          from n4 crc sid e1
          have "fst (RTUClient_sendRequest c slaveID pdu) = Ok (drop 2 (take (?n - 2) ?resp))"
            using assms(1-3) by (auto simp: rtu_defs)
          with False crc_ok sid_ok no_exc show ?thesis
            by (simp only: fr) simp
        qed
      qed
    qed
  qed
qed


lemma RTUClient_sendRequest_read_error:
  assumes "port c = Some ch"
    and "write_result ch (length (writes ch)) = None"
    and "read_result ch (reads ch) = (avail, Some e)"
  shows "fst (RTUClient_sendRequest c slaveID pdu) = Err (ReadFailed e)"
  using assms by (simp add: rtu_defs)

lemma TCPClient_sendRequest_declared_length_one:
  assumes "conn c = Some ch"
    and "write_result ch (length (writes ch)) = None"
    and "read_result ch (reads ch) = (avail, None)"
    and "header = copy_into (replicate 7 0) avail"
    and "Uint16 (header ! 0) (header ! 1) = ucast (transactionID c + 1)"
    and "Uint16 (header ! 4) (header ! 5) = 1"
    and "read_result ch (reads ch + 1) = (avail2, None)"
  shows "fst (TCPClient_sendRequest c slaveID pdu) = Panic"
proof -
  have "length (copy_into (replicate (unat (Uint16 (header ! 4) (header ! 5) - 1)) 0) avail2) < 1"
    using assms(6) by simp
  with TCPClient_sendRequest_decode [OF assms(1-5) assms(7) refl, of slaveID pdu]
  show ?thesis
    by (simp only: if_True)
qed

text \<open>
  C1: ``for every value of the declared header length field the stream transport's
  \<open>sendRequest\<close> returns an error rather than performing an out-of-bounds access''.
  The code does not: a response header that declares length 1 makes the PDU buffer
  empty, the read into it succeeds with no bytes, and \<open>pduData[0]\<close> panics. Here
  the client sends transaction id 1 and the device answers with the header
  \<open>00 01 00 00 00 01 01\<close>.
\<close>

theorem C1_declared_length_one_panics:
  "fst (TCPClient_sendRequest
     \<lparr>address = ''192.168.1.10:502'',
      conn = Some \<lparr>write_result = (\<lambda>k. None),
                   read_result = (\<lambda>k. if k = 0 then ([0, 1, 0, 0, 0, 1, 1], None) else ([], None)),
                   writes = [], reads = 0\<rparr>,
      timeout = 5000000000, transactionID = 0\<rparr>
     1 \<lparr>FunctionCode = 0x01, Data = [0, 0, 0, 10]\<rparr>) = Panic"
  by (simp add: tcp_defs Uint16_def PutUint16_def copy_into_def)

text \<open>
  C6: in a stream exchange whose request was written and whose header read returned
  without error, a transaction id in the response header that differs from the one
  sent makes \<open>sendRequest\<close> return \<open>ErrInvalidResponse\<close>, whatever the rest of the
  header and the payload that follows are.
\<close>

theorem C6_transaction_id_mismatch:
  assumes "conn c = Some ch"
    and "write_result ch (length (writes ch)) = None"
    and "read_result ch (reads ch) = (avail, None)"
    and "header = copy_into (replicate 7 0) avail"
    and "Uint16 (header ! 0) (header ! 1) \<noteq> ucast (transactionID c + 1)"
  shows "fst (TCPClient_sendRequest c slaveID pdu) = Err ErrInvalidResponse"
  using assms by (simp add: tcp_defs)

theorem C6_transaction_id_mismatch_witness:
  "fst (TCPClient_sendRequest
     \<lparr>address = ''192.168.1.10:502'',
      conn = Some \<lparr>write_result = (\<lambda>k. None),
                   read_result = (\<lambda>k. if k = 0 then ([0, 2, 0, 0, 0, 4, 1], None)
                                       else ([1, 1, 5], None)),
                   writes = [], reads = 0\<rparr>,
      timeout = 5000000000, transactionID = 0\<rparr>
     1 \<lparr>FunctionCode = 0x01, Data = [0, 0, 0, 8]\<rparr>) = Err ErrInvalidResponse"
proof -
  let ?ch = "\<lparr>write_result = (\<lambda>k. None),
              read_result = (\<lambda>k. if k = 0 then ([0, 2, 0, 0, 0, 4, 1 :: byte], None)
                                  else ([1, 1, 5], None)),
              writes = [], reads = 0\<rparr>"
  let ?c = "\<lparr>address = ''192.168.1.10:502'', conn = Some ?ch,
             timeout = 5000000000, transactionID = 0\<rparr>"
  have 1: "conn ?c = Some ?ch"
    by simp
  have 2: "write_result ?ch (length (writes ?ch)) = None"
    by simp
  have 3: "read_result ?ch (reads ?ch) = ([0, 2, 0, 0, 0, 4, 1], None)"
    by simp
  have 4: "Uint16 (copy_into (replicate 7 0) [0, 2, 0, 0, 0, 4, 1] ! 0)
             (copy_into (replicate 7 0) [0, 2, 0, 0, 0, 4, 1] ! 1) \<noteq> ucast (transactionID ?c + 1)"
    by (simp add: Uint16_def copy_into_def)
  show ?thesis
    by (rule C6_transaction_id_mismatch [OF 1 2 3 refl 4])
qed

text \<open>
  C5, as stated: ``receiving fewer than 4 bytes yields a Timeout error regardless of
  underlying I/O success''. It fails when the \<open>Read\<close> itself returns an error:
  \<open>sendRequest\<close> tests \<open>err\<close> before it looks at the byte count, so no byte received
  together with a read error is the wrapped read failure, not \<open>ErrTimeout\<close>.
\<close>

theorem C5_read_error_counterexample:
  "length (take 260 ([] :: byte list)) < 4
   \<and> fst (RTUClient_sendRequest
     \<lparr>config = \<lparr>Device = ''/dev/ttyUSB0'', Baud = 9600, DataBits = 8, Parity = 0,
                 StopBits = 0, ReadTimeout = 1000000000, WriteTimeout = 0\<rparr>,
      port = Some \<lparr>write_result = (\<lambda>k. None),
                   read_result = (\<lambda>k. ([], Some ''port has been closed'')),
                   writes = [], reads = 0\<rparr>\<rparr>
     1 \<lparr>FunctionCode = 0x01, Data = [0, 0, 0, 8]\<rparr>) = Err (ReadFailed ''port has been closed'')
   \<and> fst (RTUClient_sendRequest
     \<lparr>config = \<lparr>Device = ''/dev/ttyUSB0'', Baud = 9600, DataBits = 8, Parity = 0,
                 StopBits = 0, ReadTimeout = 1000000000, WriteTimeout = 0\<rparr>,
      port = Some \<lparr>write_result = (\<lambda>k. None),
                   read_result = (\<lambda>k. ([], Some ''port has been closed'')),
                   writes = [], reads = 0\<rparr>\<rparr>
     1 \<lparr>FunctionCode = 0x01, Data = [0, 0, 0, 8]\<rparr>) \<noteq> Err ErrTimeout"
  by (simp add: rtu_defs)

text \<open>
  C5, amended: in the serial receive path, once the request has been written, a
  \<open>Read\<close> that returns an error gives the wrapped read failure whatever was received;
  for every byte sequence received by a \<open>Read\<close> that returns no error, fewer than 4
  bytes is \<open>ErrTimeout\<close>, and 4 or more bytes whose trailing checksum does not verify
  is \<open>ErrInvalidCRC\<close>, whatever the unit id and the payload are.
\<close>

theorem C5_timeout_and_crc:
  assumes "port c = Some ch"
    and "write_result ch (length (writes ch)) = None"
    and "read_result ch (reads ch) = (avail, rerr)"
    and "received = take 260 avail"
  shows "(\<forall>e. rerr = Some e \<longrightarrow>
            fst (RTUClient_sendRequest c slaveID pdu) = Err (ReadFailed e))
       \<and> (rerr = None \<and> length received < 4 \<longrightarrow>
            fst (RTUClient_sendRequest c slaveID pdu) = Err ErrTimeout)
       \<and> (rerr = None \<and> 4 \<le> length received \<and> \<not> CheckCRC received \<longrightarrow>
            fst (RTUClient_sendRequest c slaveID pdu) = Err ErrInvalidCRC)"
proof (intro conjI allI impI; (elim conjE)?)
  fix e assume "rerr = Some e"
  with assms(3) have "read_result ch (reads ch) = (avail, Some e)"
    by simp
  from RTUClient_sendRequest_read_error [OF assms(1,2) this]
  show "fst (RTUClient_sendRequest c slaveID pdu) = Err (ReadFailed e)" .
next
  assume "rerr = None" and short: "length received < 4"
  with assms(3) have "read_result ch (reads ch) = (avail, None)"
    by simp
  from RTUClient_sendRequest_decode [OF assms(1,2) this assms(4), of slaveID pdu] short
  show "fst (RTUClient_sendRequest c slaveID pdu) = Err ErrTimeout"
    by simp
next
  assume "rerr = None" and long: "4 \<le> length received" and bad: "\<not> CheckCRC received"
  with assms(3) have "read_result ch (reads ch) = (avail, None)"
    by simp
  from RTUClient_sendRequest_decode [OF assms(1,2) this assms(4), of slaveID pdu] long bad
  show "fst (RTUClient_sendRequest c slaveID pdu) = Err ErrInvalidCRC"
    by simp
qed

theorem C5_timeout_and_crc_witness:
  "fst (RTUClient_sendRequest
     \<lparr>config = \<lparr>Device = ''/dev/ttyUSB0'', Baud = 9600, DataBits = 8, Parity = 0,
                 StopBits = 0, ReadTimeout = 1000000000, WriteTimeout = 0\<rparr>,
      port = Some \<lparr>write_result = (\<lambda>k. None),
                   read_result = (\<lambda>k. ([0x01, 0x01, 0x01], None)),
                   writes = [], reads = 0\<rparr>\<rparr>
     1 \<lparr>FunctionCode = 0x01, Data = [0, 0, 0, 8]\<rparr>) = Err ErrTimeout
   \<and> fst (RTUClient_sendRequest
     \<lparr>config = \<lparr>Device = ''/dev/ttyUSB0'', Baud = 9600, DataBits = 8, Parity = 0,
                 StopBits = 0, ReadTimeout = 1000000000, WriteTimeout = 0\<rparr>,
      port = Some \<lparr>write_result = (\<lambda>k. None),
                   read_result = (\<lambda>k. ([0x01, 0x81, 0x02, 0xC1, 0x90], None)),
                   writes = [], reads = 0\<rparr>\<rparr>
     1 \<lparr>FunctionCode = 0x01, Data = [0, 0, 0, 8]\<rparr>) = Err ErrInvalidCRC
   \<and> fst (RTUClient_sendRequest
     \<lparr>config = \<lparr>Device = ''/dev/ttyUSB0'', Baud = 9600, DataBits = 8, Parity = 0,
                 StopBits = 0, ReadTimeout = 1000000000, WriteTimeout = 0\<rparr>,
      port = Some \<lparr>write_result = (\<lambda>k. None),
                   read_result = (\<lambda>k. ([0x01, 0x01], Some ''port has been closed'')),
                   writes = [], reads = 0\<rparr>\<rparr>
     1 \<lparr>FunctionCode = 0x01, Data = [0, 0, 0, 8]\<rparr>) = Err (ReadFailed ''port has been closed'')"
proof -
  let ?cfg = "\<lparr>Device = ''/dev/ttyUSB0'', Baud = 9600, DataBits = 8, Parity = 0,
                 StopBits = 0, ReadTimeout = 1000000000, WriteTimeout = 0\<rparr>"
  let ?pdu = "\<lparr>FunctionCode = 0x01, Data = [0, 0, 0, 8]\<rparr>"
  let ?ch1 = "\<lparr>write_result = (\<lambda>k. None),
               read_result = (\<lambda>k. ([0x01, 0x01, 0x01 :: byte], None)),
               writes = [], reads = 0\<rparr>"
  let ?ch2 = "\<lparr>write_result = (\<lambda>k. None),
               read_result = (\<lambda>k. ([0x01, 0x81, 0x02, 0xC1, 0x90 :: byte], None)),
               writes = [], reads = 0\<rparr>"
  let ?ch3 = "\<lparr>write_result = (\<lambda>k. None),
               read_result = (\<lambda>k. ([0x01, 0x01 :: byte], Some ''port has been closed'')),
               writes = [], reads = 0\<rparr>"
  have short: "length (take 260 [0x01, 0x01, 0x01 :: byte]) < 4"
    by simp
  have "port \<lparr>config = ?cfg, port = Some ?ch1\<rparr> = Some ?ch1"
    and "write_result ?ch1 (length (writes ?ch1)) = None"
    and "read_result ?ch1 (reads ?ch1) = ([0x01, 0x01, 0x01], None)"
    by simp_all
  from C5_timeout_and_crc [OF this refl, of 1 ?pdu] short
  have a: "fst (RTUClient_sendRequest \<lparr>config = ?cfg, port = Some ?ch1\<rparr> 1 ?pdu)
             = Err ErrTimeout"
    by blast
  have long: "4 \<le> length (take 260 [0x01, 0x81, 0x02, 0xC1, 0x90 :: byte])"
    by simp
  have bad: "\<not> CheckCRC (take 260 [0x01, 0x81, 0x02, 0xC1, 0x90])"
    by code_simp
  have "port \<lparr>config = ?cfg, port = Some ?ch2\<rparr> = Some ?ch2"
    and "write_result ?ch2 (length (writes ?ch2)) = None"
    and "read_result ?ch2 (reads ?ch2) = ([0x01, 0x81, 0x02, 0xC1, 0x90], None)"
    by simp_all
  from C5_timeout_and_crc [OF this refl, of 1 ?pdu] long bad
  have b: "fst (RTUClient_sendRequest \<lparr>config = ?cfg, port = Some ?ch2\<rparr> 1 ?pdu)
             = Err ErrInvalidCRC"
    by blast
  have "port \<lparr>config = ?cfg, port = Some ?ch3\<rparr> = Some ?ch3"
    and "write_result ?ch3 (length (writes ?ch3)) = None"
    and "read_result ?ch3 (reads ?ch3) = ([0x01, 0x01], Some ''port has been closed'')"
    by simp_all
  from C5_timeout_and_crc [OF this refl, of 1 ?pdu]
  have c: "fst (RTUClient_sendRequest \<lparr>config = ?cfg, port = Some ?ch3\<rparr> 1 ?pdu)
             = Err (ReadFailed ''port has been closed'')"
    by blast
  from a b c show ?thesis
    by (intro conjI)
qed

text \<open>
  What both \<open>sendRequest\<close> do with an exception marker, once the framing has been
  accepted (stream: matching transaction id and a PDU read without error; serial: at
  least 4 bytes, checksum and unit id correct). The serial transport looks at the
  bytes received; the stream transport looks at the buffer \<open>pduData\<close>, whose length is
  the header's declared length minus one, whatever number of bytes the read put there.
\<close>

lemma sendRequest_exception_marker:
  "(conn c = Some ch \<and> write_result ch (length (writes ch)) = None
      \<and> read_result ch (reads ch) = (avail, None)
      \<and> header = copy_into (replicate 7 0) avail
      \<and> Uint16 (header ! 0) (header ! 1) = ucast (transactionID c + 1)
      \<and> read_result ch (reads ch + 1) = (avail2, None)
      \<and> pduData = copy_into (replicate (unat (Uint16 (header ! 4) (header ! 5) - 1)) 0) avail2
      \<and> 1 \<le> length pduData \<and> pduData ! 0 = (FunctionCode pdu OR 0x80)
    \<longrightarrow> fst (TCPClient_sendRequest c slaveID pdu) =
          (if 2 \<le> length pduData then Err (ModbusError (FunctionCode pdu) (pduData ! 1))
           else Err ErrInvalidResponse))
   \<and> (port r = Some rch \<and> write_result rch (length (writes rch)) = None
      \<and> read_result rch (reads rch) = (ravail, None)
      \<and> received = take 260 ravail
      \<and> 4 \<le> length received \<and> CheckCRC received \<and> received ! 0 = slaveID
      \<and> payload = take (length received - 3) (drop 1 received)
      \<and> payload ! 0 = (FunctionCode pdu OR 0x80)
    \<longrightarrow> fst (RTUClient_sendRequest r slaveID pdu) =
          (if 2 \<le> length payload then Err (ModbusError (FunctionCode pdu) (payload ! 1))
           else Err ErrInvalidResponse))"
proof (intro conjI impI; elim conjE)
  assume a: "conn c = Some ch" "write_result ch (length (writes ch)) = None"
    "read_result ch (reads ch) = (avail, None)"
    "header = copy_into (replicate 7 0) avail"
    "Uint16 (header ! 0) (header ! 1) = ucast (transactionID c + 1)"
    "read_result ch (reads ch + 1) = (avail2, None)"
    "pduData = copy_into (replicate (unat (Uint16 (header ! 4) (header ! 5) - 1)) 0) avail2"
    and b: "1 \<le> length pduData" "pduData ! 0 = (FunctionCode pdu OR 0x80)"
  from TCPClient_sendRequest_decode [OF a, of slaveID pdu] b
  show "fst (TCPClient_sendRequest c slaveID pdu) =
          (if 2 \<le> length pduData then Err (ModbusError (FunctionCode pdu) (pduData ! 1))
           else Err ErrInvalidResponse)"
    by auto
next
  assume a: "port r = Some rch" "write_result rch (length (writes rch)) = None"
    "read_result rch (reads rch) = (ravail, None)" "received = take 260 ravail"
    and b: "4 \<le> length received" "CheckCRC received" "received ! 0 = slaveID"
    and p: "payload = take (length received - 3) (drop 1 received)"
      "payload ! 0 = (FunctionCode pdu OR 0x80)"
  from b(1) have lp: "length payload = length received - 3"
    unfolding p(1) by simp
  from b(1) have p0: "payload ! 0 = received ! 1"
    unfolding p(1) by simp
  have p1: "payload ! 1 = received ! 2" if "5 \<le> length received"
    unfolding p(1) using that by (simp add: numeral_2_eq_2)
  from RTUClient_sendRequest_decode [OF a, of slaveID pdu] b p(2) p0 p1 lp
  show "fst (RTUClient_sendRequest r slaveID pdu) =
          (if 2 \<le> length payload then Err (ModbusError (FunctionCode pdu) (payload ! 1))
           else Err ErrInvalidResponse)"
    by auto
qed

text \<open>
  The scenario of a serial response \<open>01 81 02\<close> plus checksum, and a stream response
  carrying the same two payload bytes in full: both give \<open>ModbusError\<close> with function
  code 1 and exception code 2.
\<close>

lemma sendRequest_exception_scenario:
  "fst (TCPClient_sendRequest
     \<lparr>address = ''192.168.1.10:502'',
      conn = Some \<lparr>write_result = (\<lambda>k. None),
                   read_result = (\<lambda>k. if k = 0 then ([0, 1, 0, 0, 0, 3, 1], None)
                                       else ([0x81, 0x02], None)),
                   writes = [], reads = 0\<rparr>,
      timeout = 5000000000, transactionID = 0\<rparr>
     1 \<lparr>FunctionCode = 0x01, Data = [0, 0, 0, 8]\<rparr>) = Err (ModbusError 1 2)
   \<and> fst (RTUClient_sendRequest
     \<lparr>config = \<lparr>Device = ''/dev/ttyUSB0'', Baud = 9600, DataBits = 8, Parity = 0,
                 StopBits = 0, ReadTimeout = 1000000000, WriteTimeout = 0\<rparr>,
      port = Some \<lparr>write_result = (\<lambda>k. None),
                   read_result = (\<lambda>k. ([0x01, 0x81, 0x02, 0xC1, 0x91], None)),
                   writes = [], reads = 0\<rparr>\<rparr>
     1 \<lparr>FunctionCode = 0x01, Data = [0, 0, 0, 8]\<rparr>) = Err (ModbusError 1 2)"
proof -
  let ?pdu = "\<lparr>FunctionCode = 0x01, Data = [0, 0, 0, 8]\<rparr>"
  let ?ch = "\<lparr>write_result = (\<lambda>k. None),
              read_result = (\<lambda>k. if k = 0 then ([0, 1, 0, 0, 0, 3, 1 :: byte], None)
                                  else ([0x81, 0x02], None)),
              writes = [], reads = 0\<rparr>"
  let ?c = "\<lparr>address = ''192.168.1.10:502'', conn = Some ?ch,
             timeout = 5000000000, transactionID = 0\<rparr>"
  let ?cfg = "\<lparr>Device = ''/dev/ttyUSB0'', Baud = 9600, DataBits = 8, Parity = 0,
                 StopBits = 0, ReadTimeout = 1000000000, WriteTimeout = 0\<rparr>"
  let ?rch = "\<lparr>write_result = (\<lambda>k. None),
               read_result = (\<lambda>k. ([0x01, 0x81, 0x02, 0xC1, 0x91 :: byte], None)),
               writes = [], reads = 0\<rparr>"
  let ?r = "\<lparr>config = ?cfg, port = Some ?rch\<rparr>"
  let ?header = "copy_into (replicate 7 0) [0, 1, 0, 0, 0, 3, 1]"
  let ?pduData = "copy_into (replicate (unat (Uint16 (?header ! 4) (?header ! 5) - 1)) 0)
                    [0x81, 0x02]"
  let ?received = "take 260 [0x01, 0x81, 0x02, 0xC1, 0x91 :: byte]"
  let ?payload = "take (length ?received - 3) (drop 1 ?received)"
  note inst = sendRequest_exception_marker [of ?c ?ch "[0, 1, 0, 0, 0, 3, 1]" ?header "[0x81, 0x02]"
      ?pduData ?pdu 1 ?r ?rch "[0x01, 0x81, 0x02, 0xC1, 0x91]" ?received ?payload]
  have hdr: "?header = [0, 1, 0, 0, 0, 3, 1]"
    by (simp add: copy_into_def)
  have len: "Uint16 (?header ! 4) (?header ! 5) = 3"
    unfolding hdr by (simp add: Uint16_def)
  have pd: "?pduData = [0x81, 0x02]"
    unfolding len by (simp add: copy_into_def)
  have tcp_hyps: "conn ?c = Some ?ch \<and> write_result ?ch (length (writes ?ch)) = None
      \<and> read_result ?ch (reads ?ch) = ([0, 1, 0, 0, 0, 3, 1], None)
      \<and> ?header = copy_into (replicate 7 0) [0, 1, 0, 0, 0, 3, 1]
      \<and> Uint16 (?header ! 0) (?header ! 1) = ucast (transactionID ?c + 1)
      \<and> read_result ?ch (reads ?ch + 1) = ([0x81, 0x02], None)
      \<and> ?pduData = copy_into (replicate (unat (Uint16 (?header ! 4) (?header ! 5) - 1)) 0)
                      [0x81, 0x02]
      \<and> 1 \<le> length ?pduData \<and> ?pduData ! 0 = (FunctionCode ?pdu OR 0x80)"
    unfolding pd unfolding hdr by (simp add: Uint16_def)
  have crc: "CheckCRC ?received"
    by code_simp
  have rtu_hyps: "port ?r = Some ?rch \<and> write_result ?rch (length (writes ?rch)) = None
      \<and> read_result ?rch (reads ?rch) = ([0x01, 0x81, 0x02, 0xC1, 0x91], None)
      \<and> ?received = take 260 [0x01, 0x81, 0x02, 0xC1, 0x91]
      \<and> 4 \<le> length ?received \<and> CheckCRC ?received \<and> ?received ! 0 = 1
      \<and> ?payload = take (length ?received - 3) (drop 1 ?received)
      \<and> ?payload ! 0 = (FunctionCode ?pdu OR 0x80)"
    using crc by simp
  from inst tcp_hyps have "fst (TCPClient_sendRequest ?c 1 ?pdu) =
          (if 2 \<le> length ?pduData then Err (ModbusError (FunctionCode ?pdu) (?pduData ! 1))
           else Err ErrInvalidResponse)"
    by blast
  then have a: "fst (TCPClient_sendRequest ?c 1 ?pdu) = Err (ModbusError 1 2)"
    unfolding pd by simp
  from inst rtu_hyps have "fst (RTUClient_sendRequest ?r 1 ?pdu) =
          (if 2 \<le> length ?payload then Err (ModbusError (FunctionCode ?pdu) (?payload ! 1))
           else Err ErrInvalidResponse)"
    by blast
  then have b: "fst (RTUClient_sendRequest ?r 1 ?pdu) = Err (ModbusError 1 2)"
    by simp
  from a b show ?thesis
    by (rule conjI)
qed

text \<open>
  C3: ``if the exception marker is present but no exception-code byte follows, the call
  returns InvalidResponse'', for both transports. The stream transport does not: it
  drops the count that \<open>Read\<close> returns and takes the declared length for the number of
  payload bytes. Here the header \<open>00 01 00 00 00 03 01\<close> declares two payload bytes and
  the device delivers the marker \<open>81\<close> alone; \<open>sendRequest\<close> returns \<open>ModbusError\<close>
  with an exception code 0 read from the untouched part of the buffer, where the
  serial transport, which slices its buffer to the count received, answers a marker
  without a following byte with \<open>ErrInvalidResponse\<close>.
\<close>

theorem C3_short_read_exception_code:
  "fst (TCPClient_sendRequest
     \<lparr>address = ''192.168.1.10:502'',
      conn = Some \<lparr>write_result = (\<lambda>k. None),
                   read_result = (\<lambda>k. if k = 0 then ([0, 1, 0, 0, 0, 3, 1], None)
                                       else ([0x81], None)),
                   writes = [], reads = 0\<rparr>,
      timeout = 5000000000, transactionID = 0\<rparr>
     1 \<lparr>FunctionCode = 0x01, Data = [0, 0, 0, 8]\<rparr>) = Err (ModbusError 1 0)"
  by (simp add: tcp_defs Uint16_def PutUint16_def copy_into_def)

section \<open>Quantity guards\<close>

lemma TCPClient_sendRequest_not_ErrInvalidQuantity:
  "fst (TCPClient_sendRequest c slaveID pdu) \<noteq> Err ErrInvalidQuantity"
  by (auto simp: tcp_defs split: option.splits prod.splits)

lemma RTUClient_sendRequest_not_ErrInvalidQuantity:
  "fst (RTUClient_sendRequest c slaveID pdu) \<noteq> Err ErrInvalidQuantity"
  by (auto simp: rtu_defs split: option.splits prod.splits)

lemma fst_discard_payload:
  "(fst (discard_payload r) = Err e) = (fst r = Err e)"
  by (auto simp: discard_payload_def split: prod.splits result.splits)

lemma snd_discard_payload [simp]: "snd (discard_payload r) = snd r"
  by (auto simp: discard_payload_def split: prod.splits result.splits)

lemma read_bits_guard:
  assumes "\<And>c s p. fst (send c s p) \<noteq> Err ErrInvalidQuantity"
  shows "(fst (read_bits send fc c s a q) = Err ErrInvalidQuantity) = (q = 0 \<or> 2000 < q)"
    and "q = 0 \<or> 2000 < q \<Longrightarrow> snd (read_bits send fc c s a q) = c"
  using assms [of c s "\<lparr>FunctionCode = fc, Data = PutUint16 a @ PutUint16 q\<rparr>"]
  by (auto simp: read_bits_def Let_def split: prod.splits result.splits)

lemma read_registers_guard:
  assumes "\<And>c s p. fst (send c s p) \<noteq> Err ErrInvalidQuantity"
  shows "(fst (read_registers send fc c s a q) = Err ErrInvalidQuantity) = (q = 0 \<or> 125 < q)"
    and "q = 0 \<or> 125 < q \<Longrightarrow> snd (read_registers send fc c s a q) = c"
  using assms [of c s "\<lparr>FunctionCode = fc, Data = PutUint16 a @ PutUint16 q\<rparr>"]
  by (auto simp: read_registers_def Let_def split: prod.splits result.splits)

lemma write_multiple_coils_guard:
  assumes "\<And>c s p. fst (send c s p) \<noteq> Err ErrInvalidQuantity"
  shows "(fst (write_multiple_coils send c s a vs) = Err ErrInvalidQuantity)
           = (length vs = 0 \<or> 1968 < length vs)"
    and "length vs = 0 \<or> 1968 < length vs \<Longrightarrow> snd (write_multiple_coils send c s a vs) = c"
  using assms
  by (auto simp: write_multiple_coils_def Let_def fst_discard_payload)

lemma write_multiple_registers_guard:
  assumes "\<And>c s p. fst (send c s p) \<noteq> Err ErrInvalidQuantity"
  shows "(fst (write_multiple_registers send c s a vs) = Err ErrInvalidQuantity)
           = (length vs = 0 \<or> 123 < length vs)"
    and "length vs = 0 \<or> 123 < length vs \<Longrightarrow> snd (write_multiple_registers send c s a vs) = c"
  using assms
  by (auto simp: write_multiple_registers_def Let_def fst_discard_payload)

lemmas tcp_guards =
  read_bits_guard [of TCPClient_sendRequest, OF TCPClient_sendRequest_not_ErrInvalidQuantity]
  read_registers_guard [of TCPClient_sendRequest, OF TCPClient_sendRequest_not_ErrInvalidQuantity]
  write_multiple_coils_guard [of TCPClient_sendRequest,
    OF TCPClient_sendRequest_not_ErrInvalidQuantity]
  write_multiple_registers_guard [of TCPClient_sendRequest,
    OF TCPClient_sendRequest_not_ErrInvalidQuantity]

lemmas rtu_guards =
  read_bits_guard [of RTUClient_sendRequest, OF RTUClient_sendRequest_not_ErrInvalidQuantity]
  read_registers_guard [of RTUClient_sendRequest, OF RTUClient_sendRequest_not_ErrInvalidQuantity]
  write_multiple_coils_guard [of RTUClient_sendRequest,
    OF RTUClient_sendRequest_not_ErrInvalidQuantity]
  write_multiple_registers_guard [of RTUClient_sendRequest,
    OF RTUClient_sendRequest_not_ErrInvalidQuantity]

lemmas op_defs =
  TCPClient_ReadCoils_def TCPClient_ReadDiscreteInputs_def
  TCPClient_ReadHoldingRegisters_def TCPClient_ReadInputRegisters_def
  TCPClient_WriteSingleCoil_def TCPClient_WriteSingleRegister_def
  TCPClient_WriteMultipleCoils_def TCPClient_WriteMultipleRegisters_def
  RTUClient_ReadCoils_def RTUClient_ReadDiscreteInputs_def
  RTUClient_ReadHoldingRegisters_def RTUClient_ReadInputRegisters_def
  RTUClient_WriteSingleCoil_def RTUClient_WriteSingleRegister_def
  RTUClient_WriteMultipleCoils_def RTUClient_WriteMultipleRegisters_def

text \<open>
  C4: each bounded operation, on both clients, returns \<open>ErrInvalidQuantity\<close> exactly
  when its bound is violated (quantity 0 or above 2000 for the two bit reads, 0 or
  above 125 for the two register reads, no value or more than 1968 for
  \<open>WriteMultipleCoils\<close>, no value or more than 123 for \<open>WriteMultipleRegisters\<close>),
  and then the client it leaves is the client it was given: the channel, with its log
  of writes and reads, is untouched, so no I/O was done.
\<close>

theorem C4_invalid_quantity:
  "((fst (TCPClient_ReadCoils c s a q) = Err ErrInvalidQuantity) = (q = 0 \<or> 2000 < q))
   \<and> (q = 0 \<or> 2000 < q \<longrightarrow> snd (TCPClient_ReadCoils c s a q) = c)
   \<and> ((fst (TCPClient_ReadDiscreteInputs c s a q) = Err ErrInvalidQuantity) = (q = 0 \<or> 2000 < q))
   \<and> (q = 0 \<or> 2000 < q \<longrightarrow> snd (TCPClient_ReadDiscreteInputs c s a q) = c)
   \<and> ((fst (TCPClient_ReadHoldingRegisters c s a q) = Err ErrInvalidQuantity) = (q = 0 \<or> 125 < q))
   \<and> (q = 0 \<or> 125 < q \<longrightarrow> snd (TCPClient_ReadHoldingRegisters c s a q) = c)
   \<and> ((fst (TCPClient_ReadInputRegisters c s a q) = Err ErrInvalidQuantity) = (q = 0 \<or> 125 < q))
   \<and> (q = 0 \<or> 125 < q \<longrightarrow> snd (TCPClient_ReadInputRegisters c s a q) = c)
   \<and> ((fst (TCPClient_WriteMultipleCoils c s a bs) = Err ErrInvalidQuantity)
         = (length bs = 0 \<or> 1968 < length bs))
   \<and> (length bs = 0 \<or> 1968 < length bs \<longrightarrow> snd (TCPClient_WriteMultipleCoils c s a bs) = c)
   \<and> ((fst (TCPClient_WriteMultipleRegisters c s a ws) = Err ErrInvalidQuantity)
         = (length ws = 0 \<or> 123 < length ws))
   \<and> (length ws = 0 \<or> 123 < length ws \<longrightarrow> snd (TCPClient_WriteMultipleRegisters c s a ws) = c)
   \<and> ((fst (RTUClient_ReadCoils r s a q) = Err ErrInvalidQuantity) = (q = 0 \<or> 2000 < q))
   \<and> (q = 0 \<or> 2000 < q \<longrightarrow> snd (RTUClient_ReadCoils r s a q) = r)
   \<and> ((fst (RTUClient_ReadDiscreteInputs r s a q) = Err ErrInvalidQuantity) = (q = 0 \<or> 2000 < q))
   \<and> (q = 0 \<or> 2000 < q \<longrightarrow> snd (RTUClient_ReadDiscreteInputs r s a q) = r)
   \<and> ((fst (RTUClient_ReadHoldingRegisters r s a q) = Err ErrInvalidQuantity) = (q = 0 \<or> 125 < q))
   \<and> (q = 0 \<or> 125 < q \<longrightarrow> snd (RTUClient_ReadHoldingRegisters r s a q) = r)
   \<and> ((fst (RTUClient_ReadInputRegisters r s a q) = Err ErrInvalidQuantity) = (q = 0 \<or> 125 < q))
   \<and> (q = 0 \<or> 125 < q \<longrightarrow> snd (RTUClient_ReadInputRegisters r s a q) = r)
   \<and> ((fst (RTUClient_WriteMultipleCoils r s a bs) = Err ErrInvalidQuantity)
         = (length bs = 0 \<or> 1968 < length bs))
   \<and> (length bs = 0 \<or> 1968 < length bs \<longrightarrow> snd (RTUClient_WriteMultipleCoils r s a bs) = r)
   \<and> ((fst (RTUClient_WriteMultipleRegisters r s a ws) = Err ErrInvalidQuantity)
         = (length ws = 0 \<or> 123 < length ws))
   \<and> (length ws = 0 \<or> 123 < length ws \<longrightarrow> snd (RTUClient_WriteMultipleRegisters r s a ws) = r)"
  unfolding op_defs
  by (intro conjI impI tcp_guards rtu_guards)


theorem C4_invalid_quantity_witness:
  "TCPClient_ReadCoils \<lparr>address = ''h:502'', conn = None, timeout = 5, transactionID = 7\<rparr> 1 0 2001
     = (Err ErrInvalidQuantity, \<lparr>address = ''h:502'', conn = None, timeout = 5, transactionID = 7\<rparr>)
   \<and> TCPClient_ReadHoldingRegisters
        \<lparr>address = ''h:502'', conn = None, timeout = 5, transactionID = 7\<rparr> 1 0 2001
     = (Err ErrInvalidQuantity, \<lparr>address = ''h:502'', conn = None, timeout = 5, transactionID = 7\<rparr>)
   \<and> TCPClient_WriteMultipleCoils
        \<lparr>address = ''h:502'', conn = None, timeout = 5, transactionID = 7\<rparr> 1 0 []
     = (Err ErrInvalidQuantity, \<lparr>address = ''h:502'', conn = None, timeout = 5, transactionID = 7\<rparr>)
   \<and> TCPClient_WriteMultipleRegisters
        \<lparr>address = ''h:502'', conn = None, timeout = 5, transactionID = 7\<rparr> 1 0 (replicate 124 0)
     = (Err ErrInvalidQuantity, \<lparr>address = ''h:502'', conn = None, timeout = 5, transactionID = 7\<rparr>)
   \<and> fst (RTUClient_ReadDiscreteInputs
        \<lparr>config = \<lparr>Device = ''tty'', Baud = 9600, DataBits = 8, Parity = 0, StopBits = 0,
                    ReadTimeout = 1, WriteTimeout = 1\<rparr>, port = None\<rparr> 1 0 2001)
     = Err ErrInvalidQuantity
   \<and> fst (RTUClient_ReadInputRegisters
        \<lparr>config = \<lparr>Device = ''tty'', Baud = 9600, DataBits = 8, Parity = 0, StopBits = 0,
                    ReadTimeout = 1, WriteTimeout = 1\<rparr>, port = None\<rparr> 1 0 2001)
     = Err ErrInvalidQuantity"
proof -
  let ?c = "\<lparr>address = ''h:502'', conn = None, timeout = 5, transactionID = 7\<rparr>"
  let ?r = "\<lparr>config = \<lparr>Device = ''tty'', Baud = 9600, DataBits = 8, Parity = 0, StopBits = 0,
                    ReadTimeout = 1, WriteTimeout = 1\<rparr>, port = None\<rparr>"
  have q: "(2001 :: uint16) = 0 \<or> 2000 < (2001 :: uint16)"
    and q': "(2001 :: uint16) = 0 \<or> 125 < (2001 :: uint16)"
    and e: "length ([] :: bool list) = 0 \<or> 1968 < length ([] :: bool list)"
    and w: "length (replicate 124 (0 :: uint16)) = 0 \<or> 123 < length (replicate 124 (0 :: uint16))"
    by simp_all
  note inst = C4_invalid_quantity [of ?c 1 0 2001 "[]" "replicate 124 0" ?r]
  from inst q have a1: "fst (TCPClient_ReadCoils ?c 1 0 2001) = Err ErrInvalidQuantity"
    and a2: "snd (TCPClient_ReadCoils ?c 1 0 2001) = ?c"
    by blast+
  from inst q' have b1: "fst (TCPClient_ReadHoldingRegisters ?c 1 0 2001) = Err ErrInvalidQuantity"
    and b2: "snd (TCPClient_ReadHoldingRegisters ?c 1 0 2001) = ?c"
    by blast+
  from inst e have c1: "fst (TCPClient_WriteMultipleCoils ?c 1 0 []) = Err ErrInvalidQuantity"
    and c2: "snd (TCPClient_WriteMultipleCoils ?c 1 0 []) = ?c"
    by blast+
  from inst w
  have d1: "fst (TCPClient_WriteMultipleRegisters ?c 1 0 (replicate 124 0)) = Err ErrInvalidQuantity"
    and d2: "snd (TCPClient_WriteMultipleRegisters ?c 1 0 (replicate 124 0)) = ?c"
    by blast+
  from inst q have e1: "fst (RTUClient_ReadDiscreteInputs ?r 1 0 2001) = Err ErrInvalidQuantity"
    by blast
  from inst q' have f1: "fst (RTUClient_ReadInputRegisters ?r 1 0 2001) = Err ErrInvalidQuantity"
    by blast
  from a1 a2 b1 b2 c1 c2 d1 d2 e1 f1 show ?thesis
    by (simp only: prod_eq_iff fst_conv snd_conv simp_thms)
qed

section \<open>Transaction ids across calls\<close>

lemma frame_id_request:
  "frame_id (PutUint16 t @ ys) = t"
  unfolding frame_id_def Uint16_def PutUint16_def
  by (simp, rule bit_word_eqI) (auto simp: bit_simps)

lemma TCPClient_sendRequest_not_connected:
  "conn c = None \<Longrightarrow> snd (TCPClient_sendRequest c s p) = c"
  by (simp add: TCPClient_sendRequest_def)

lemma TCPClient_sendRequest_effect:
  assumes "conn c = Some ch"
  shows "transactionID (snd (TCPClient_sendRequest c s p)) = transactionID c + 1
     \<and> conn (snd (TCPClient_sendRequest c s p)) \<noteq> None
     \<and> map frame_id (frames_written (conn (snd (TCPClient_sendRequest c s p))))
         = map frame_id (frames_written (conn c)) @ [ucast (transactionID c + 1)]"
  using assms
  by (auto simp: tcp_defs frames_written_def frame_id_request
      split: option.splits prod.splits)


lemma snd_read_bits:
  "snd (read_bits send fc c s a q) =
     (if q = 0 \<or> 2000 < q then c
      else snd (send c s \<lparr>FunctionCode = fc, Data = PutUint16 a @ PutUint16 q\<rparr>))"
  by (auto simp: read_bits_def Let_def split: prod.splits result.splits)

lemma snd_read_registers:
  "snd (read_registers send fc c s a q) =
     (if q = 0 \<or> 125 < q then c
      else snd (send c s \<lparr>FunctionCode = fc, Data = PutUint16 a @ PutUint16 q\<rparr>))"
  by (auto simp: read_registers_def Let_def split: prod.splits result.splits)

lemma TCPClient_call_cases:
  "\<exists>s p. TCPClient_call c x =
            (if passes_guard x then snd (TCPClient_sendRequest c s p) else c)"
proof (cases x)
  case (ReadCoils s a q)
  then show ?thesis
    by (auto simp: TCPClient_ReadCoils_def snd_read_bits)
next
  case (ReadDiscreteInputs s a q)
  then show ?thesis
    by (auto simp: TCPClient_ReadDiscreteInputs_def snd_read_bits)
next
  case (ReadHoldingRegisters s a q)
  then show ?thesis
    by (auto simp: TCPClient_ReadHoldingRegisters_def snd_read_registers)
next
  case (ReadInputRegisters s a q)
  then show ?thesis
    by (auto simp: TCPClient_ReadInputRegisters_def snd_read_registers)
next
  case (WriteSingleCoil s a v)
  then show ?thesis
    by (auto simp: TCPClient_WriteSingleCoil_def write_single_coil_def Let_def)
next
  case (WriteSingleRegister s a v)
  then show ?thesis
    by (auto simp: TCPClient_WriteSingleRegister_def write_single_register_def Let_def)
next
  case (WriteMultipleCoils s a vs)
  then show ?thesis
    by (auto simp: TCPClient_WriteMultipleCoils_def write_multiple_coils_def Let_def)
next
  case (WriteMultipleRegisters s a vs)
  then show ?thesis
    by (auto simp: TCPClient_WriteMultipleRegisters_def write_multiple_registers_def Let_def)
qed

lemma TCPClient_call_unchanged:
  "conn c = None \<or> \<not> passes_guard x \<Longrightarrow> TCPClient_call c x = c"
  using TCPClient_call_cases [of c x]
  by (auto simp: TCPClient_sendRequest_not_connected)

lemma TCPClient_call_effect:
  assumes "conn c \<noteq> None" and "passes_guard x"
  shows "transactionID (TCPClient_call c x) = transactionID c + 1
     \<and> conn (TCPClient_call c x) \<noteq> None
     \<and> map frame_id (frames_written (conn (TCPClient_call c x)))
         = map frame_id (frames_written (conn c)) @ [ucast (transactionID c + 1)]"
proof -
  from assms(1) obtain ch where ch: "conn c = Some ch"
    by auto
  from TCPClient_call_cases [of c x] assms(2)
  obtain s p where "TCPClient_call c x = snd (TCPClient_sendRequest c s p)"
    by auto
  with TCPClient_sendRequest_effect [OF ch, of s p] show ?thesis
    by simp
qed

lemma ucast_add_of_nat_Suc:
  "(ucast (t + 1 :: uint32) :: uint16) + of_nat (Suc k) = ucast t + of_nat (Suc (Suc k))"
  by (simp add: ucast_succ_32_16)

text \<open>
  C7: for every stream client and every sequence of calls on it, the transaction ids
  of the frames written during the sequence are \<open>t + 1, t + 2, \<dots>, t + n\<close> in
  \<open>uint16\<close> arithmetic (that is, modulo \<open>2^16\<close>), where \<open>t\<close> is the counter's low
  16 bits before the first call: each id is the previous one plus one. On a connected
  client \<open>n\<close> counts the calls that pass their quantity guard (the others never reach
  \<open>sendRequest\<close>); a client without a connection writes nothing and keeps its counter.
\<close>

theorem C7_transaction_ids_consecutive:
  "map frame_id (frames_written (conn (TCPClient_calls c calls)))
     = map frame_id (frames_written (conn c))
       @ map (\<lambda>k. ucast (transactionID c) + of_nat (Suc k))
           [0 ..< (if conn c = None then 0 else length (filter passes_guard calls))]
   \<and> transactionID (TCPClient_calls c calls)
     = transactionID c + of_nat (if conn c = None then 0 else length (filter passes_guard calls))"
proof (induction calls arbitrary: c)
  case Nil
  show ?case
    by simp
next
  case (Cons x xs)
  show ?case
  proof (cases "conn c = None \<or> \<not> passes_guard x")
    case True
    then have "TCPClient_call c x = c"
      by (rule TCPClient_call_unchanged)
    with Cons.IH [of c] True show ?thesis
      by auto
  next
    case False
    then have conn: "conn c \<noteq> None" and ok: "passes_guard x"
      by simp_all
    let ?c1 = "TCPClient_call c x"
    let ?n = "length (filter passes_guard xs)"
    from TCPClient_call_effect [OF conn ok]
    have t1: "transactionID ?c1 = transactionID c + 1"
      and c1: "conn ?c1 \<noteq> None"
      and w1: "map frame_id (frames_written (conn ?c1))
                = map frame_id (frames_written (conn c)) @ [ucast (transactionID c + 1)]"
      by simp_all
    have shift: "map (\<lambda>k. ucast (transactionID c) + (of_nat (Suc k) :: uint16)) [0 ..< Suc ?n]
        = ucast (transactionID c + 1)
          # map (\<lambda>k. ucast (transactionID c + 1) + of_nat (Suc k)) [0 ..< ?n]"
      by (simp only: map_upt_Suc ucast_add_of_nat_Suc) (simp add: ucast_succ_32_16)
    from Cons.IH [of ?c1] c1
    have "map frame_id (frames_written (conn (TCPClient_calls ?c1 xs)))
            = map frame_id (frames_written (conn ?c1))
              @ map (\<lambda>k. ucast (transactionID ?c1) + of_nat (Suc k)) [0 ..< ?n]"
      and t: "transactionID (TCPClient_calls ?c1 xs) = transactionID ?c1 + of_nat ?n"
      by simp_all
    then have "map frame_id (frames_written (conn (TCPClient_calls ?c1 xs)))
            = map frame_id (frames_written (conn c))
              @ map (\<lambda>k. ucast (transactionID c) + of_nat (Suc k)) [0 ..< Suc ?n]"
      by (simp only: w1 t1 shift append_assoc append_Cons append_Nil)
    moreover from t have "transactionID (TCPClient_calls ?c1 xs)
            = transactionID c + of_nat (Suc ?n)"
      by (simp add: t1)
    ultimately show ?thesis
      using conn ok by simp
  qed
qed


theorem C7_transaction_ids_consecutive_witness:
  "map frame_id (frames_written (conn (TCPClient_calls
      \<lparr>address = ''h:502'',
       conn = Some \<lparr>write_result = (\<lambda>k. None), read_result = (\<lambda>k. ([], Some ''EOF'')),
                    writes = [], reads = 0\<rparr>,
       timeout = 5, transactionID = 0xFFFF\<rparr>
      [ReadCoils 1 0 8, ReadCoils 1 0 0, WriteSingleRegister 1 2 3]))) = [0, 1]
   \<and> transactionID (TCPClient_calls
      \<lparr>address = ''h:502'',
       conn = Some \<lparr>write_result = (\<lambda>k. None), read_result = (\<lambda>k. ([], Some ''EOF'')),
                    writes = [], reads = 0\<rparr>,
       timeout = 5, transactionID = 0xFFFF\<rparr>
      [ReadCoils 1 0 8, ReadCoils 1 0 0, WriteSingleRegister 1 2 3]) = 0x10001"
proof -
  let ?c = "\<lparr>address = ''h:502'',
       conn = Some \<lparr>write_result = (\<lambda>k. None), read_result = (\<lambda>k. ([], Some ''EOF'')),
                    writes = [], reads = 0\<rparr>,
       timeout = 5, transactionID = 0xFFFF\<rparr>"
  let ?calls = "[ReadCoils 1 0 8, ReadCoils 1 0 0, WriteSingleRegister 1 2 3]"
  have n: "(if conn ?c = None then 0 else length (filter passes_guard ?calls)) = Suc (Suc 0)"
    by simp
  have ids: "map (\<lambda>k. ucast (transactionID ?c) + (of_nat (Suc k) :: uint16)) [0 ..< Suc (Suc 0)]
               = [0, 1]"
    by simp
  have old: "map frame_id (frames_written (conn ?c)) = []"
    by (simp add: frames_written_def)
  from C7_transaction_ids_consecutive [of ?c ?calls] show ?thesis
    unfolding n ids old by simp
qed

section \<open>Decoding a short bit payload\<close>

lemma bytesToBools_beyond_data:
  assumes "k < unat q" and "length data \<le> k div 8"
  shows "\<not> bytesToBools data q ! k"
proof -
  have "length data mod 65536 \<le> length data"
    by simp
  with assms(2) have "\<not> k div 8 < length data mod 65536"
    by simp
  with assms(1) show ?thesis
    by (simp add: bytesToBools_nth)
qed

lemma read_bits_decodes:
  assumes "\<not> (q = 0 \<or> 2000 < q)"
    and "fst (send c s \<lparr>FunctionCode = fc, Data = PutUint16 a @ PutUint16 q\<rparr>) = Ok response"
    and "1 \<le> length response"
  shows "fst (read_bits send fc c s a q) = Ok (bytesToBools (drop 1 response) q)"
  using assms
  by (auto simp: read_bits_def Let_def split: prod.splits result.splits)

text \<open>
  C10: when \<open>ReadCoils\<close> or \<open>ReadDiscreteInputs\<close>, on either client, passes its guard
  and \<open>sendRequest\<close> returns a success payload of at least one byte, the call returns
  no error but exactly \<open>quantity\<close> booleans, decoded from the payload after its first
  byte; every position whose byte lies beyond the bytes received is \<open>false\<close>.
\<close>

theorem C10_short_data_decodes_false:
  assumes "\<not> (q = 0 \<or> 2000 < q)" and "1 \<le> length response"
  shows "(fst (TCPClient_sendRequest c s
                \<lparr>FunctionCode = FuncCodeReadCoils, Data = PutUint16 a @ PutUint16 q\<rparr>)
            = Ok response
          \<longrightarrow> fst (TCPClient_ReadCoils c s a q) = Ok (bytesToBools (drop 1 response) q))
       \<and> (fst (TCPClient_sendRequest c s
                \<lparr>FunctionCode = FuncCodeReadDiscreteInputs, Data = PutUint16 a @ PutUint16 q\<rparr>)
            = Ok response
          \<longrightarrow> fst (TCPClient_ReadDiscreteInputs c s a q) = Ok (bytesToBools (drop 1 response) q))
       \<and> (fst (RTUClient_sendRequest r s
                \<lparr>FunctionCode = FuncCodeReadCoils, Data = PutUint16 a @ PutUint16 q\<rparr>)
            = Ok response
          \<longrightarrow> fst (RTUClient_ReadCoils r s a q) = Ok (bytesToBools (drop 1 response) q))
       \<and> (fst (RTUClient_sendRequest r s
                \<lparr>FunctionCode = FuncCodeReadDiscreteInputs, Data = PutUint16 a @ PutUint16 q\<rparr>)
            = Ok response
          \<longrightarrow> fst (RTUClient_ReadDiscreteInputs r s a q) = Ok (bytesToBools (drop 1 response) q))
       \<and> length (bytesToBools (drop 1 response) q) = unat q
       \<and> (\<forall>k < unat q. length response - 1 \<le> k div 8
              \<longrightarrow> \<not> bytesToBools (drop 1 response) q ! k)"
proof -
  note tcp = read_bits_decodes [where send = TCPClient_sendRequest, OF assms(1) _ assms(2)]
  note rtu = read_bits_decodes [where send = RTUClient_sendRequest, OF assms(1) _ assms(2)]
  have len: "length (bytesToBools (drop 1 response) q) = unat q"
    by (rule length_bytesToBools)
  have beyond: "\<not> bytesToBools (drop 1 response) q ! k"
    if "k < unat q" and "length response - 1 \<le> k div 8" for k
    using that by (intro bytesToBools_beyond_data) simp_all
  from tcp rtu len beyond show ?thesis
    unfolding TCPClient_ReadCoils_def TCPClient_ReadDiscreteInputs_def
      RTUClient_ReadCoils_def RTUClient_ReadDiscreteInputs_def
    by blast
qed

theorem C10_short_data_decodes_false_witness:
  "fst (TCPClient_ReadCoils
      \<lparr>address = ''h:502'',
       conn = Some \<lparr>write_result = (\<lambda>k. None),
                    read_result = (\<lambda>k. if k = 0 then ([0, 1, 0, 0, 0, 4, 1], None)
                                        else ([0x01, 0x01, 0x05], None)),
                    writes = [], reads = 0\<rparr>,
       timeout = 5, transactionID = 0\<rparr> 1 0 10) = Ok (bytesToBools [0x05] 10)
   \<and> length (bytesToBools [0x05] 10) = 10
   \<and> \<not> bytesToBools [0x05] 10 ! 8
   \<and> \<not> bytesToBools [0x05] 10 ! 9"
proof -
  let ?c = "\<lparr>address = ''h:502'',
       conn = Some \<lparr>write_result = (\<lambda>k. None),
                    read_result = (\<lambda>k. if k = 0 then ([0, 1, 0, 0, 0, 4, 1 :: byte], None)
                                        else ([0x01, 0x01, 0x05], None)),
                    writes = [], reads = 0\<rparr>,
       timeout = 5, transactionID = 0\<rparr>"
  have g: "\<not> ((10 :: uint16) = 0 \<or> 2000 < (10 :: uint16))"
    by simp
  have l: "1 \<le> length [0x01, 0x05 :: byte]"
    by simp
  have sent: "fst (TCPClient_sendRequest ?c 1
                \<lparr>FunctionCode = FuncCodeReadCoils, Data = PutUint16 0 @ PutUint16 10\<rparr>)
              = Ok [0x01, 0x05]"
    by (simp add: tcp_defs Uint16_def PutUint16_def copy_into_def FuncCodeReadCoils_def)
  note inst = C10_short_data_decodes_false [OF g l, of ?c 1 0]
  from inst sent
  have rd: "fst (TCPClient_ReadCoils ?c 1 0 10) = Ok (bytesToBools (drop 1 [0x01, 0x05]) 10)"
    by blast
  from inst have len: "length (bytesToBools (drop 1 [0x01, 0x05]) 10) = unat (10 :: uint16)"
    by blast
  from inst have beyond: "\<forall>k < unat (10 :: uint16). length [0x01, 0x05 :: byte] - 1 \<le> k div 8
                   \<longrightarrow> \<not> bytesToBools (drop 1 [0x01, 0x05]) 10 ! k"
    by blast
  from beyond have "\<not> bytesToBools (drop 1 [0x01, 0x05]) 10 ! 8"
    and "\<not> bytesToBools (drop 1 [0x01, 0x05]) 10 ! 9"
    by simp_all
  with rd len show ?thesis
    by simp
qed

end
